theory Spec2Isabelle
  imports Complex_Main "HOL-Library.Sublist"
begin

section \<open>Time\<close>

text \<open>
  A JavaScript \<open>Date\<close> is a time value: milliseconds since the epoch, here an \<open>int\<close>.
  The user records keep their timestamps as ISO strings written by \<open>toISOString\<close> and
  read back by \<open>new Date(string)\<close>; that round trip returns the same time value, so the
  records below hold the time value itself.

  The host's local time zone enters twice: \<open>toDateString\<close> renders the local calendar
  day of a time value, and \<open>new Date(year, month, day)\<close> reads its arguments as local
  time. Both offsets are parameters of the model (\<open>LocalTZA\<close> of ECMA-262, in
  milliseconds): \<open>tza_utc\<close> at a UTC time value, \<open>tza_local\<close> at a local one.
\<close>

record host =
  tza_utc :: "int \<Rightarrow> int"
  tza_local :: "int \<Rightarrow> int"

definition msPerDay :: int where
  "msPerDay = 24 * 60 * 60 * 1000"

definition toDateString :: "host \<Rightarrow> int \<Rightarrow> int" where
  \<comment> \<open>The string names the weekday, month, day and year of the local day. Two strings are
      equal iff the local day numbers are, and the code only compares them: the model
      returns the local day number.\<close>
  "toDateString h t = (t + tza_utc h t) div msPerDay"

section \<open>User records\<close>

text \<open>
  Both channels keep \<open>tokens\<close> and \<open>streak\<close>; the WhatsApp record adds the three
  timestamps of \<open>addUser_wa\<close>, the Telegram record the id, the first name and the
  \<open>lastActive\<close> timestamp of \<open>addUser_tg\<close> (its other profile fields are never read).
  Token counts are JavaScript numbers that only ever hold integers.
\<close>

record user =
  tokens :: int
  streak :: int

record wa_user = user +
  WaId :: string
  ProfileName :: string
  referralId :: string
  lastTokenReward :: int
  lastActivity :: int
  streakDate :: int

record tg_user = user +
  tg_id :: int
  first_name :: string
  lastActive :: int

section \<open>Reward policy\<close>

text \<open>
  Every function that reads the clock (\<open>new Date()\<close>) takes the reading as its argument
  \<open>now\<close>. The hours since the last reward are a real number; the code computes them in
  double precision, which compares with 8 and rounds down in the same way for every
  elapsed time a clock can show.
\<close>

definition hoursSinceLastReward :: "int \<Rightarrow> 'a wa_user_scheme \<Rightarrow> real" where
  "hoursSinceLastReward now u = real_of_int (now - lastTokenReward u) / (1000 * 60 * 60)"

definition checkAndUpdateTokenRewards ::
    "int \<Rightarrow> 'a wa_user_scheme \<Rightarrow> int \<times> 'a wa_user_scheme" where
  "checkAndUpdateTokenRewards now u =
     (if hoursSinceLastReward now u \<ge> 8 \<and> tokens u \<le> 4 then
        let rewardCount = \<lfloor>hoursSinceLastReward now u / 8\<rfloor>;
            tokensAwarded = rewardCount * 10
        in (tokensAwarded, u\<lparr>tokens := tokens u + tokensAwarded, lastTokenReward := now\<rparr>)
      else (0, u))"

record streak_info =
  streakBroken :: bool
  streakReward :: int

definition checkAndUpdateStreak ::
    "host \<Rightarrow> int \<Rightarrow> 'a wa_user_scheme \<Rightarrow> streak_info \<times> 'a wa_user_scheme" where
  "checkAndUpdateStreak h now u =
     (if now - lastActivity u > 48 * 60 * 60 * 1000 then
        (\<lparr>streakBroken = True, streakReward = 0\<rparr>, u\<lparr>streak := 0, streakDate := now\<rparr>)
      else if toDateString h now \<noteq> toDateString h (streakDate u) then
        let u1 = u\<lparr>streak := streak u + 1, streakDate := now\<rparr> in
        if streak u1 mod 10 = 0 then
          (\<lparr>streakBroken = False, streakReward = 10\<rparr>, u1\<lparr>tokens := tokens u1 + 10\<rparr>)
        else (\<lparr>streakBroken = False, streakReward = 0\<rparr>, u1)
      else (\<lparr>streakBroken = False, streakReward = 0\<rparr>, u))"

definition updateUserActivity :: "int \<Rightarrow> 'a wa_user_scheme \<Rightarrow> 'a wa_user_scheme" where
  "updateUserActivity now u = u\<lparr>lastActivity := now\<rparr>"

section \<open>Strings\<close>

text \<open>
  Text is a list of 8-bit characters read as Latin-1 code points. \<open>toLowerCase\<close> maps
  \<open>A\<close>-\<open>Z\<close> and the accented capitals (\<open>0xC0\<close>-\<open>0xDE\<close> without the multiplication
  sign \<open>0xD7\<close>) to the letter 32 code points above and leaves every other character.
\<close>

definition toLowerCase_char :: "char \<Rightarrow> char" where
  "toLowerCase_char c =
     (let n = (of_char c :: nat)
      in if (65 \<le> n \<and> n \<le> 90) \<or> (192 \<le> n \<and> n \<le> 222 \<and> n \<noteq> 215)
         then char_of (n + 32) else c)"

definition toLowerCase :: "string \<Rightarrow> string" where
  "toLowerCase s = map toLowerCase_char s"

fun startsWith :: "string \<Rightarrow> string \<Rightarrow> bool" where
  "startsWith s [] = True"
| "startsWith [] (k # ks) = False"
| "startsWith (c # cs) (k # ks) = (c = k \<and> startsWith cs ks)"

fun includes_str :: "string \<Rightarrow> string \<Rightarrow> bool" where
  \<comment> \<open>\<open>text.includes(keyword)\<close>: the keyword starts at some position of the text.\<close>
  "includes_str [] k = startsWith [] k"
| "includes_str (c # cs) k = (startsWith (c # cs) k \<or> includes_str cs k)"

fun join :: "string \<Rightarrow> string list \<Rightarrow> string" where
  "join sep [] = []"
| "join sep [x] = x"
| "join sep (x # y # ys) = x @ sep @ join sep (y # ys)"

definition is_digit :: "char \<Rightarrow> bool" where
  "is_digit c = (48 \<le> (of_char c :: nat) \<and> (of_char c :: nat) \<le> 57)"

definition is_sep :: "char \<Rightarrow> bool" where
  \<comment> \<open>the character class \<open>[-/]\<close>\<close>
  "is_sep c = (c \<in> set ''-/'')"

fun split_sep :: "string \<Rightarrow> string list" where
  \<comment> \<open>\<open>dateStr.split(/[-/]/)\<close>; the empty string splits into one empty part.\<close>
  "split_sep [] = [[]]"
| "split_sep (c # cs) =
     (if is_sep c then [] # split_sep cs
      else (case split_sep cs of [] \<Rightarrow> [[c]] | p # ps \<Rightarrow> (c # p) # ps))"

definition decimal :: "string \<Rightarrow> int" where
  "decimal s = foldl (\<lambda>n c. 10 * n + (int (of_char c) - 48)) 0 s"

definition to_number :: "string \<Rightarrow> int option" where
  \<comment> \<open>\<open>ToNumber\<close> on a string of decimal digits (leading zeros allowed, the empty
      string is 0); \<open>None\<close> is \<open>NaN\<close>. Only digit strings and missing parts reach it:
      the other numeric literals of JavaScript are not modelled and read as \<open>NaN\<close>.\<close>
  "to_number s = (if list_all is_digit s then Some (decimal s) else None)"

section \<open>Calendar dates\<close>

text \<open>
  \<open>new Date(year, monthIndex, day)\<close> after ECMA-262: a year from 0 to 99 means
  1900 + year, months and days out of range carry over (\<open>MakeDay\<close>), the result is read
  as local time and clipped to the range of time values; \<open>None\<close> is the invalid date.
\<close>

definition DayFromYear :: "int \<Rightarrow> int" where
  "DayFromYear y =
     365 * (y - 1970) + (y - 1969) div 4 - (y - 1901) div 100 + (y - 1601) div 400"

definition InLeapYear :: "int \<Rightarrow> bool" where
  "InLeapYear y = (y mod 4 = 0 \<and> (y mod 100 \<noteq> 0 \<or> y mod 400 = 0))"

definition daysBeforeMonth :: "int \<Rightarrow> int \<Rightarrow> int" where
  "daysBeforeMonth y m =
     [0, 31, 59, 90, 120, 151, 181, 212, 243, 273, 304, 334] ! nat m
       + (if 2 \<le> m \<and> InLeapYear y then 1 else 0)"

definition MakeDay :: "int \<Rightarrow> int \<Rightarrow> int \<Rightarrow> int" where
  "MakeDay year month date =
     (let ym = year + month div 12; mn = month mod 12
      in DayFromYear ym + daysBeforeMonth ym mn + date - 1)"

definition TimeClip :: "int \<Rightarrow> int option" where
  "TimeClip t = (if \<bar>t\<bar> > 8640000000000000 then None else Some t)"

definition UTC :: "host \<Rightarrow> int \<Rightarrow> int" where
  "UTC h t = t - tza_local h t"

definition newDate :: "host \<Rightarrow> int \<Rightarrow> int \<Rightarrow> int \<Rightarrow> int option" where
  "newDate h year monthIndex day =
     (let yr = (if 0 \<le> year \<and> year \<le> 99 then 1900 + year else year)
      in TimeClip (UTC h (MakeDay yr monthIndex day * msPerDay)))"

text \<open>
  Local time is within a day of UTC on every host there is; the bound is only needed to
  show that a date read from ten characters is never the invalid date.
\<close>

definition sane_host :: "host \<Rightarrow> bool" where
  "sane_host h = (\<forall>t. \<bar>tza_local h t\<bar> \<le> msPerDay)"

section \<open>Payment-proof verification\<close>

definition requiredKeywords :: "(string \<times> string list) list" where
  "requiredKeywords =
     [(''payment'', [''payment'', ''paid'', ''transaction'']),
      (''platform'', [''flutterwave'', ''flutter'', ''wave'']),
      (''amount'', [''1000'', ''1,000'', ''ngn1000'', ''ngn1,000'']),
      (''identifier'', [''florence'', ''flo''])]"

definition keywordResults :: "string \<Rightarrow> (string \<times> bool) list" where
  "keywordResults text =
     map (\<lambda>(category, keywords). (category, list_ex (\<lambda>keyword. includes_str text keyword) keywords))
       requiredKeywords"

definition missingCategories :: "string \<Rightarrow> string list" where
  "missingCategories text = map fst (filter (\<lambda>(category, found). \<not> found) (keywordResults text))"

text \<open>
  The date pattern \<open>/(\d{2}[-/]\d{2}[-/]\d{4}|\d{4}[-/]\d{2}[-/]\d{2})/g\<close>: two
  alternatives of ten atoms each, \<open>\d\<close> or a character class. \<open>text.match\<close>
  with the \<open>g\<close> flag scans from the left, takes the ten characters where an alternative
  matches and goes on behind them; the empty list stands for \<open>null\<close>.
\<close>

datatype atom = Digit | Class string

fun atom_matches :: "atom \<Rightarrow> char \<Rightarrow> bool" where
  "atom_matches Digit c = is_digit c"
| "atom_matches (Class cs) c = (c \<in> set cs)"

fun matches_at :: "atom list \<Rightarrow> string \<Rightarrow> bool" where
  "matches_at [] s = True"
| "matches_at (a # as) [] = False"
| "matches_at (a # as) (c # cs) = (atom_matches a c \<and> matches_at as cs)"

definition dmy_pattern :: "atom list" where
  "dmy_pattern =
     [Digit, Digit, Class ''-/'', Digit, Digit, Class ''-/'', Digit, Digit, Digit, Digit]"

definition ymd_pattern :: "atom list" where
  "ymd_pattern =
     [Digit, Digit, Digit, Digit, Class ''-/'', Digit, Digit, Class ''-/'', Digit, Digit]"

definition dateRegex_at :: "string \<Rightarrow> bool" where
  "dateRegex_at s = (matches_at dmy_pattern s \<or> matches_at ymd_pattern s)"

fun match_dateRegex :: "string \<Rightarrow> string list" where
  "match_dateRegex [] = []"
| "match_dateRegex (c # cs) =
     (if dateRegex_at (c # cs) then take 10 (c # cs) # match_dateRegex (drop 9 cs)
      else match_dateRegex cs)"

definition parseDate :: "host \<Rightarrow> string \<Rightarrow> int option" where
  \<comment> \<open>A missing part is \<open>undefined\<close>, which reads as \<open>NaN\<close> and gives the invalid date.\<close>
  "parseDate h dateStr =
     (case split_sep dateStr of
        p0 # p1 # p2 # rest \<Rightarrow>
          (case (to_number p0, to_number p1, to_number p2) of
             (Some n0, Some n1, Some n2) \<Rightarrow>
               if length p0 = 4 then newDate h n0 (n1 - 1) n2
               else newDate h n2 (n1 - 1) n0
           | _ \<Rightarrow> None)
      | _ \<Rightarrow> None)"

datatype pdf_input =
    NoBuffer            \<comment> \<open>absent, or not a \<open>Buffer\<close>\<close>
  | PdfError string     \<comment> \<open>the text extraction throws, with this message\<close>
  | PdfText string      \<comment> \<open>the extracted \<open>data.text\<close>\<close>

datatype verification =
    Invalid (reason: string)
  | Valid (date: int) (amount: string) (platform: string)

definition validDates :: "host \<Rightarrow> string list \<Rightarrow> int list" where
  \<comment> \<open>\<open>dates.map(...).filter(date => date && !isNaN(date))\<close>\<close>
  "validDates h dates = List.map_filter (parseDate h) dates"

definition checkDates :: "host \<Rightarrow> string \<Rightarrow> int \<Rightarrow> verification" where
  \<comment> \<open>the second half of \<open>verifyPaymentProof\<close>: extract and validate the date\<close>
  "checkDates h text requestTimestamp =
     (let dates = match_dateRegex text
      in if dates = [] then Invalid ''No valid date found in payment proof''
         else
           (case validDates h dates of
              [] \<Rightarrow> Invalid ''Could not parse any valid dates from payment proof''
            | d # ds \<Rightarrow>
                let mostRecentDate = fold max ds d;
                    timeDifference = \<bar>mostRecentDate - requestTimestamp\<bar>;
                    maxTimeWindow = 24 * 60 * 60 * 1000
                in if timeDifference > maxTimeWindow then
                     Invalid ''Payment date is outside acceptable timeframe''
                   else Valid mostRecentDate ''1000 NGN'' ''Flutterwave''))"

definition verifyPaymentProof :: "host \<Rightarrow> pdf_input \<Rightarrow> int \<Rightarrow> verification" where
  "verifyPaymentProof h pdfBuffer requestTimestamp =
     (case pdfBuffer of
        NoBuffer \<Rightarrow> Invalid ''Invalid PDF data provided''
      | PdfError message \<Rightarrow> Invalid (''Error processing PDF: '' @ message)
      | PdfText data_text \<Rightarrow>
          let text = toLowerCase data_text;
              missing = missingCategories text
          in if length missing > 0 then
               Invalid (''Missing required information: '' @ join '', '' missing)
             else checkDates h text requestTimestamp)"

section \<open>The Telegram channel\<close>

text \<open>
  \<open>floDb_tg\<close> and \<open>paymentRequests\<close> are JavaScript \<open>Map\<close>s. An update is handled to its
  end before the next one starts. What the collaborators do is part of the update: whether
  the file download succeeds and what it holds, whether the awaited reply and the model
  call succeed. Replies that are sent without \<open>await\<close> cannot change the state and are
  left out.
\<close>

record tg_state =
  floDb_tg :: "int \<rightharpoonup> tg_user"
  paymentRequests :: "int \<rightharpoonup> int"

datatype pdf_download = DownloadFails | Downloaded pdf_input

datatype tg_message =
    Document (mime_type: "string option") (download: pdf_download)
  | Message (command: "string option") (photos: nat) (processing_reply_ok: bool)
      (askClaude_ok: bool)

record tg_ctx =
  from_id :: int
  from_is_bot :: bool
  from_first_name :: string
  t_active :: int     \<comment> \<open>the clock when the middleware runs\<close>
  t_handler :: int    \<comment> \<open>the clock when the handler runs\<close>
  message :: tg_message

datatype tg_outcome =
    Threw                       \<comment> \<open>the handler reads a field of a missing user record\<close>
  | Informed                    \<comment> \<open>/about, /tokens, /streak, /start\<close>
  | PaymentRequested
  | AskedForPdf
  | AskedForPaymentsFirst
  | ProofError
  | PaymentVerified
  | VerificationFailed string
  | TooManyAttachments
  | NotEnoughTokens
  | Answered
  | ApologisedAndRefunded

definition addUser_tg :: "tg_ctx \<Rightarrow> tg_user" where
  "addUser_tg ctx =
     \<lparr>tokens = 10, streak = 0, tg_id = from_id ctx, first_name = from_first_name ctx,
      lastActive = t_active ctx\<rparr>"

definition set_user :: "tg_ctx \<Rightarrow> tg_user \<Rightarrow> tg_state \<Rightarrow> tg_state" where
  \<comment> \<open>The record found under the sender's id is changed in place, and
      \<open>floDb_tg.set(user.id, user)\<close> stores it under its own id.\<close>
  "set_user ctx user s =
     s\<lparr>floDb_tg := ((floDb_tg s)(from_id ctx \<mapsto> user))(tg_id user \<mapsto> user)\<rparr>"

definition middleware :: "tg_ctx \<Rightarrow> tg_state \<Rightarrow> tg_state" where
  "middleware ctx s =
     (if \<not> from_is_bot ctx then
        let user = (case floDb_tg s (from_id ctx) of
                      None \<Rightarrow> addUser_tg ctx
                    | Some u \<Rightarrow> u)
        in set_user ctx (user\<lparr>lastActive := t_active ctx\<rparr>) s
      else s)"

definition on_command :: "string \<Rightarrow> tg_ctx \<Rightarrow> tg_state \<Rightarrow> tg_outcome \<times> tg_state" where
  "on_command name ctx s =
     (if name = ''about'' then (Informed, s)
      else case floDb_tg s (from_id ctx) of
        None \<Rightarrow> (Threw, s)
      | Some user \<Rightarrow>
          if name = ''payments'' then
            (PaymentRequested,
             s\<lparr>paymentRequests := (paymentRequests s)(tg_id user \<mapsto> t_handler ctx)\<rparr>)
          else (Informed, s))"

definition on_document ::
    "host \<Rightarrow> tg_ctx \<Rightarrow> string option \<Rightarrow> pdf_download \<Rightarrow> tg_state \<Rightarrow> tg_outcome \<times> tg_state" where
  "on_document h ctx mime dl s =
     (if mime \<noteq> Some ''application/pdf'' then (AskedForPdf, s)
      else case floDb_tg s (from_id ctx) of
        None \<Rightarrow> (Threw, s)
      | Some user \<Rightarrow>
          (case paymentRequests s (tg_id user) of
             None \<Rightarrow> (AskedForPaymentsFirst, s)
           | Some requestTimestamp \<Rightarrow>
               (case dl of
                  DownloadFails \<Rightarrow> (ProofError, s)
                | Downloaded pdfBuffer \<Rightarrow>
                    (case verifyPaymentProof h pdfBuffer requestTimestamp of
                       Valid d a p \<Rightarrow>
                         let user' = user\<lparr>tokens := tokens user + 10\<rparr>;
                             s' = set_user ctx user' s
                         in (PaymentVerified,
                             s'\<lparr>paymentRequests := (paymentRequests s')(tg_id user' := None)\<rparr>)
                     | Invalid why \<Rightarrow> (VerificationFailed why, s)))))"

definition on_message ::
    "tg_ctx \<Rightarrow> nat \<Rightarrow> bool \<Rightarrow> bool \<Rightarrow> tg_state \<Rightarrow> tg_outcome \<times> tg_state" where
  "on_message ctx n_photos reply_ok claude_ok s =
     (if n_photos > 5 then (TooManyAttachments, s)
      else case floDb_tg s (from_id ctx) of
        None \<Rightarrow> (Threw, s)
      | Some user \<Rightarrow>
          let requiredTokens = (if n_photos > 0 then 2 * int n_photos else 1)
          in if tokens user < requiredTokens then (NotEnoughTokens, s)
             else
               let user1 = user\<lparr>tokens := tokens user - requiredTokens\<rparr>;
                   s1 = set_user ctx user1 s
               in if reply_ok \<and> claude_ok then (Answered, s1)
                  else
                    let user2 = user1\<lparr>tokens := tokens user1 + requiredTokens\<rparr>
                    in (ApologisedAndRefunded, set_user ctx user2 s1))"

definition tg_commands :: "string list" where
  \<comment> \<open>in the order the handlers are registered\<close>
  "tg_commands = [''about'', ''tokens'', ''streak'', ''start'', ''payments'']"

definition tg_handle :: "host \<Rightarrow> tg_ctx \<Rightarrow> tg_state \<Rightarrow> tg_outcome \<times> tg_state" where
  \<comment> \<open>A command without a handler falls through to \<open>bot.on('message')\<close>.\<close>
  "tg_handle h ctx s =
     (case message ctx of
        Document mime dl \<Rightarrow> on_document h ctx mime dl s
      | Message cmd n_photos reply_ok claude_ok \<Rightarrow>
          (case cmd of
             Some name \<Rightarrow>
               if name \<in> set tg_commands then on_command name ctx s
               else on_message ctx n_photos reply_ok claude_ok s
           | None \<Rightarrow> on_message ctx n_photos reply_ok claude_ok s))"

definition tg_update :: "host \<Rightarrow> tg_ctx \<Rightarrow> tg_state \<Rightarrow> tg_outcome \<times> tg_state" where
  "tg_update h ctx s = tg_handle h ctx (middleware ctx s)"

fun tg_run :: "host \<Rightarrow> tg_ctx list \<Rightarrow> tg_state \<Rightarrow> tg_state" where
  "tg_run h [] s = s"
| "tg_run h (ctx # ctxs) s = tg_run h ctxs (snd (tg_update h ctx s))"

definition tg_init :: tg_state where
  "tg_init = \<lparr>floDb_tg = Map.empty, paymentRequests = Map.empty\<rparr>"

section \<open>The WhatsApp channel\<close>

text \<open>
  \<open>floDb_wa\<close> is an array of user objects; a handler changes the object that
  \<open>getUser_wa\<close> finds, in place. Every \<open>await createMessage_wa\<close> and the model call can
  throw; the request says for each place whether it succeeds. A throw ends the handler
  in its \<open>catch\<close> with status 500 and leaves every change made before it.
\<close>

datatype wa_send =
    AdminNote1 | AdminNote2 | Walkthrough | RewardNote | CommandReply | LowTokensNote
  | OutOfTokens | StreakNote | TooManyMedia | ModelReply | Unsupported

record wa_req =
  req_WaId :: string
  req_MessageType :: string
  req_ProfileName :: string
  req_Body :: string
  req_NumMedia :: "int option"     \<comment> \<open>\<open>parseInt(NumMedia)\<close>, \<open>None\<close> for \<open>NaN\<close>\<close>
  t_reward :: int                  \<comment> \<open>the clock in \<open>checkAndUpdateTokenRewards\<close>\<close>
  t_activity :: int                \<comment> \<open>the clock in \<open>updateUserActivity\<close>\<close>
  t_streak :: int                  \<comment> \<open>the clock in \<open>checkAndUpdateStreak\<close>\<close>
  delivers :: "wa_send \<Rightarrow> bool"
  claude_ok :: bool

datatype http_status = Status200 | Status500

definition status_of :: "bool \<Rightarrow> http_status" where
  "status_of ok = (if ok then Status200 else Status500)"

definition isNewUser :: "string \<Rightarrow> wa_user list \<Rightarrow> bool" where
  "isNewUser wid db = (length (filter (\<lambda>item. WaId item = wid) db) = 0)"

definition getUser_wa :: "string \<Rightarrow> wa_user list \<Rightarrow> wa_user option" where
  "getUser_wa wid db = find (\<lambda>item. WaId item = wid) db"

definition addUser_wa :: "wa_req \<Rightarrow> int \<Rightarrow> int \<Rightarrow> wa_user list \<Rightarrow> wa_user list" where
  \<comment> \<open>The three timestamps are three clock readings; the referral id is the first
      character of the name (\<open>undefined\<close> for an empty name) before the id.\<close>
  "addUser_wa r tokens0 streak0 db =
     db @ [\<lparr>tokens = tokens0, streak = streak0, WaId = req_WaId r,
            ProfileName = req_ProfileName r,
            referralId = (case req_ProfileName r of [] \<Rightarrow> ''undefined'' | c # cs \<Rightarrow> [c])
                           @ req_WaId r,
            lastTokenReward = t_reward r, lastActivity = t_activity r,
            streakDate = t_streak r\<rparr>]"

fun put_user :: "wa_user \<Rightarrow> wa_user list \<Rightarrow> wa_user list" where
  \<comment> \<open>the array after the object found by \<open>getUser_wa\<close> has become \<open>u\<close>\<close>
  "put_user u [] = []"
| "put_user u (item # db) = (if WaId item = WaId u then u # db else item # put_user u db)"

definition wa_prompt :: "host \<Rightarrow> wa_req \<Rightarrow> wa_user \<Rightarrow> http_status \<times> wa_user" where
  \<comment> \<open>the \<open>default\<close> branch of the switch\<close>
  "wa_prompt h r user =
     (if tokens user \<le> 0 then (status_of (delivers r OutOfTokens), user)
      else
        let user1 = updateUserActivity (t_activity r) user;
            (info, user2) = checkAndUpdateStreak h (t_streak r) user1
        in if streakReward info > 0 \<and> \<not> delivers r StreakNote then (Status500, user2)
           else if req_MessageType r = ''image'' \<or> req_MessageType r = ''document'' then
             (if (case req_NumMedia r of None \<Rightarrow> False | Some n \<Rightarrow> n > 5) then
                (status_of (delivers r TooManyMedia), user2)
              else
                (status_of (claude_ok r \<and> delivers r ModelReply),
                 user2\<lparr>tokens := tokens user2 - 2\<rparr>))
           else if req_MessageType r = ''text'' then
             (status_of (claude_ok r \<and> delivers r ModelReply),
              user2\<lparr>tokens := tokens user2 - 1\<rparr>)
           else (status_of (delivers r Unsupported), user2))"

definition wa_existing :: "host \<Rightarrow> wa_req \<Rightarrow> wa_user \<Rightarrow> http_status \<times> wa_user" where
  "wa_existing h r user0 =
     (let (tokenReward, user) = checkAndUpdateTokenRewards (t_reward r) user0
      in if tokenReward > 0 \<and> \<not> delivers r RewardNote then (Status500, user)
         else if req_Body r \<in> {''/start'', ''/about'', ''/payments'', ''/streak''} then
           (status_of (delivers r CommandReply), user)
         else if req_Body r = ''/tokens'' then
           (status_of (delivers r CommandReply
                        \<and> (if tokens user \<le> 4 then delivers r LowTokensNote else True)),
            user)
         else wa_prompt h r user)"

definition whatsapp :: "host \<Rightarrow> wa_req \<Rightarrow> wa_user list \<Rightarrow> http_status \<times> wa_user list" where
  "whatsapp h r db =
     (if isNewUser (req_WaId r) db then
        (status_of (delivers r AdminNote1 \<and> delivers r AdminNote2 \<and> delivers r Walkthrough),
         addUser_wa r 100 0 db)
      else case getUser_wa (req_WaId r) db of
        None \<Rightarrow> (Status500, db)
      | Some user0 \<Rightarrow>
          let (st, user) = wa_existing h r user0 in (st, put_user user db))"

section \<open>Telegram: records, traces and outstanding declarations\<close>

text \<open>
  Every record of \<open>floDb_tg\<close> is stored under its own id (\<open>wf_db\<close>): the handlers use
  \<open>user.id\<close> where the middleware used the sender's id. A trace pairs each update with
  its outcome. A declaration is outstanding when the trace holds a \<open>/payments\<close> request
  of the user with no verified payment of that user after it.
\<close>

definition wf_db :: "tg_state \<Rightarrow> bool" where
  "wf_db s = (\<forall>k u. floDb_tg s k = Some u \<longrightarrow> tg_id u = k)"

fun tg_trace :: "host \<Rightarrow> tg_ctx list \<Rightarrow> tg_state \<Rightarrow> (tg_ctx \<times> tg_outcome) list" where
  "tg_trace h [] s = []"
| "tg_trace h (ctx # ctxs) s =
     (ctx, fst (tg_update h ctx s)) # tg_trace h ctxs (snd (tg_update h ctx s))"

definition declared :: "int \<Rightarrow> tg_ctx \<times> tg_outcome \<Rightarrow> bool" where
  "declared uid ev = (from_id (fst ev) = uid \<and> snd ev = PaymentRequested)"

definition consumed :: "int \<Rightarrow> tg_ctx \<times> tg_outcome \<Rightarrow> bool" where
  "consumed uid ev = (from_id (fst ev) = uid \<and> snd ev = PaymentVerified)"

definition outstanding :: "int \<Rightarrow> (tg_ctx \<times> tg_outcome) list \<Rightarrow> bool" where
  "outstanding uid evs =
     (\<exists>before ev after. evs = before @ ev # after \<and> declared uid ev
        \<and> (\<forall>x \<in> set after. \<not> consumed uid x))"

section \<open>WhatsApp: commands and charges\<close>

text \<open>
  The five bodies the switch treats as commands, and what a prompt costs: 2 tokens for an
  image or document message unless more than 5 media are announced, 1 for a text message,
  nothing for any other kind.
\<close>

definition wa_is_command :: "string \<Rightarrow> bool" where
  "wa_is_command body = (body \<in> {''/start'', ''/about'', ''/payments'', ''/tokens'', ''/streak''})"

definition wa_charge :: "wa_req \<Rightarrow> int" where
  "wa_charge r =
     (if req_MessageType r = ''image'' \<or> req_MessageType r = ''document'' then
        (case req_NumMedia r of None \<Rightarrow> 2 | Some n \<Rightarrow> if n > 5 then 0 else 2)
      else if req_MessageType r = ''text'' then 1 else 0)"

section \<open>Both channels in one process\<close>

text \<open>
  The process serves both channels. A WhatsApp request reads and writes \<open>floDb_wa\<close>
  only; a Telegram update reads and writes \<open>floDb_tg\<close> and \<open>paymentRequests\<close> only.
\<close>

datatype event = WhatsappPost wa_req | TelegramUpdate tg_ctx

record system =
  floDb_wa :: "wa_user list"
  telegram :: tg_state

definition handle_event :: "host \<Rightarrow> event \<Rightarrow> system \<Rightarrow> system" where
  "handle_event h ev s =
     (case ev of
        WhatsappPost r \<Rightarrow> s\<lparr>floDb_wa := snd (whatsapp h r (floDb_wa s))\<rparr>
      | TelegramUpdate ctx \<Rightarrow> s\<lparr>telegram := snd (tg_update h ctx (telegram s))\<rparr>)"

fun handle_events :: "host \<Rightarrow> event list \<Rightarrow> system \<Rightarrow> system" where
  "handle_events h [] s = s"
| "handle_events h (ev # evs) s = handle_events h evs (handle_event h ev s)"

fun telegram_updates :: "event list \<Rightarrow> tg_ctx list" where
  "telegram_updates [] = []"
| "telegram_updates (WhatsappPost r # evs) = telegram_updates evs"
| "telegram_updates (TelegramUpdate ctx # evs) = ctx # telegram_updates evs"

section \<open>The date formats of the specification\<close>

text \<open>
  The specification names three formats: \<open>DD/MM/YYYY\<close>, \<open>DD-MM-YYYY\<close> and
  \<open>YYYY-MM-DD\<close>. They are written here as patterns, to be compared with the pattern of
  the code; \<open>occurs\<close> says that a pattern matches at some position of a text.
\<close>

definition claimed_formats :: "atom list list" where
  "claimed_formats =
     [[Digit, Digit, Class ''/'', Digit, Digit, Class ''/'', Digit, Digit, Digit, Digit],
      [Digit, Digit, Class ''-'', Digit, Digit, Class ''-'', Digit, Digit, Digit, Digit],
      [Digit, Digit, Digit, Digit, Class ''-'', Digit, Digit, Class ''-'', Digit, Digit]]"

fun occurs :: "atom list \<Rightarrow> string \<Rightarrow> bool" where
  "occurs p [] = matches_at p []"
| "occurs p (c # cs) = (matches_at p (c # cs) \<or> occurs p cs)"

definition claimed_date_occurs :: "string \<Rightarrow> bool" where
  "claimed_date_occurs text = list_ex (\<lambda>p. occurs p text) claimed_formats"

section \<open>Sample inputs\<close>

definition lagos :: host where
  \<comment> \<open>West Africa Time: one hour ahead of UTC all year\<close>
  "lagos = \<lparr>tza_utc = (\<lambda>t. 3600000), tza_local = (\<lambda>t. 3600000)\<rparr>"

definition ada :: "int \<Rightarrow> int \<Rightarrow> wa_user" where
  \<comment> \<open>a WhatsApp user with the given balance and streak, every timestamp at the epoch\<close>
  "ada tok str =
     \<lparr>tokens = tok, streak = str, WaId = ''2348000000001'', ProfileName = ''Ada'',
      referralId = ''A2348000000001'', lastTokenReward = 0, lastActivity = 0,
      streakDate = 0\<rparr>"

definition bola :: tg_user where
  "bola = \<lparr>tokens = 3, streak = 0, tg_id = 7, first_name = ''Bola'', lastActive = 0\<rparr>"

definition bola_waiting :: tg_state where
  \<comment> \<open>Bola has declared a payment at midnight UTC of 5 March 2025\<close>
  "bola_waiting = \<lparr>floDb_tg = [7 \<mapsto> bola], paymentRequests = [7 \<mapsto> 1741132800000]\<rparr>"

definition from_bola :: "int \<Rightarrow> tg_message \<Rightarrow> tg_ctx" where
  "from_bola t msg =
     \<lparr>from_id = 7, from_is_bot = False, from_first_name = ''Bola'', t_active = t,
      t_handler = t, message = msg\<rparr>"

definition pdf_doc :: "string \<Rightarrow> tg_message" where
  "pdf_doc content = Document (Some ''application/pdf'') (Downloaded (PdfText content))"


definition declares_payment :: tg_ctx where
  "declares_payment = from_bola 1741132800000 (Message (Some ''payments'') 0 True True)"

definition sends_bad_proof :: tg_ctx where
  "sends_bad_proof = from_bola 1741140000000 (pdf_doc ''PAID via Wave: NGN1,000 on 05/03/2025'')"

definition sends_good_proof :: tg_ctx where
  "sends_good_proof =
     from_bola 1741150000000 (pdf_doc ''Paid 1000 via Flutterwave to Florence on 05/03/2025'')"


definition declares_again :: tg_ctx where
  "declares_again = from_bola 1741139999000 (Message (Some ''payments'') 0 True True)"

definition wa_msg :: "string \<Rightarrow> string \<Rightarrow> int \<Rightarrow> bool \<Rightarrow> wa_req" where
  \<comment> \<open>a message of Ada with one clock reading; every send succeeds, the model call
      succeeds iff \<open>ok\<close>\<close>
  "wa_msg kind body t ok =
     \<lparr>req_WaId = ''2348000000001'', req_MessageType = kind, req_ProfileName = ''Ada'',
      req_Body = body, req_NumMedia = Some (if kind = ''text'' then 0 else 1),
      t_reward = t, t_activity = t, t_streak = t, delivers = (\<lambda>site. True), claude_ok = ok\<rparr>"


section \<open>Idle-activity reward\<close>

lemma elapsed_ge_8: "(hoursSinceLastReward now u \<ge> 8) = (now - lastTokenReward u \<ge> 8 * 3600000)"
proof -
  have "(hoursSinceLastReward now u \<ge> 8)
          = (real_of_int (8 * 3600000) \<le> real_of_int (now - lastTokenReward u))"
    unfolding hoursSinceLastReward_def by (simp add: field_simps)
  then show ?thesis by (simp only: of_int_le_iff)
qed

lemma reward_count:
  "\<lfloor>hoursSinceLastReward now u / 8\<rfloor> = (now - lastTokenReward u) div (8 * 3600000)"
proof -
  have "hoursSinceLastReward now u / 8
          = real_of_int (now - lastTokenReward u) / real_of_int (8 * 3600000)"
    unfolding hoursSinceLastReward_def by simp
  then show ?thesis by (simp only: floor_divide_of_int_eq)
qed

lemma reward_positive:
  "hoursSinceLastReward now u \<ge> 8 \<Longrightarrow> \<lfloor>hoursSinceLastReward now u / 8\<rfloor> * 10 > 0"
  using reward_count [of now u] elapsed_ge_8 [of now u]
  by (simp add: pos_imp_zdiv_pos_iff)

text \<open>
  C3. The idle reward changes the record and returns a nonzero amount iff the balance is
  at most 4 and at least 8 hours have passed since \<open>lastTokenReward\<close>. It then adds
  \<open>floor(hours / 8) * 10\<close> tokens, sets \<open>lastTokenReward\<close> to now and returns the amount
  added; in every other case it returns 0 and the record is unchanged. In milliseconds
  the count is the elapsed time divided by eight hours, rounded down.
\<close>

theorem idle_reward:
  fixes u :: "'a wa_user_scheme"
  shows "(tokens u \<le> 4 \<and> hoursSinceLastReward now u \<ge> 8 \<longrightarrow>
           checkAndUpdateTokenRewards now u =
             (\<lfloor>hoursSinceLastReward now u / 8\<rfloor> * 10,
              u\<lparr>tokens := tokens u + \<lfloor>hoursSinceLastReward now u / 8\<rfloor> * 10,
                lastTokenReward := now\<rparr>))
       \<and> (\<not> (tokens u \<le> 4 \<and> hoursSinceLastReward now u \<ge> 8) \<longrightarrow>
           checkAndUpdateTokenRewards now u = (0, u))
       \<and> (fst (checkAndUpdateTokenRewards now u) \<noteq> 0 \<longleftrightarrow>
            tokens u \<le> 4 \<and> hoursSinceLastReward now u \<ge> 8)
       \<and> \<lfloor>hoursSinceLastReward now u / 8\<rfloor> = (now - lastTokenReward u) div (8 * 3600000)
       \<and> (hoursSinceLastReward now u \<ge> 8 \<longleftrightarrow> now - lastTokenReward u \<ge> 8 * 3600000)"
  using reward_positive [of now u] reward_count [of now u] elapsed_ge_8 [of now u]
  by (auto simp: checkAndUpdateTokenRewards_def Let_def)

theorem idle_reward_witness:
  "checkAndUpdateTokenRewards (17 * 3600000) (ada 2 0)
     = (20, (ada 2 0)\<lparr>tokens := 22, lastTokenReward := 17 * 3600000\<rparr>)
   \<and> checkAndUpdateTokenRewards (17 * 3600000) (ada 5 0) = (0, ada 5 0)
   \<and> checkAndUpdateTokenRewards (7 * 3600000) (ada 2 0) = (0, ada 2 0)"
  using idle_reward [of "ada 2 0" "17 * 3600000"] idle_reward [of "ada 5 0" "17 * 3600000"]
    idle_reward [of "ada 2 0" "7 * 3600000"]
  by (simp add: ada_def)

section \<open>Streak evaluation\<close>

text \<open>
  C2. More than 48 hours after \<open>lastActivity\<close> the streak is set to 0, \<open>streakDate\<close> to
  now and the result is broken with no reward, whatever the streak was. Otherwise, on a
  calendar day other than that of \<open>streakDate\<close>, the streak grows by one and
  \<open>streakDate\<close> becomes now; the reward is 10 tokens, added to the balance, iff the new
  streak is a multiple of 10. Otherwise nothing changes and nothing is reported.
\<close>

theorem streak_evaluation:
  fixes u :: "'a wa_user_scheme"
  shows "(now - lastActivity u > 48 * 3600000 \<longrightarrow>
            checkAndUpdateStreak h now u =
              (\<lparr>streakBroken = True, streakReward = 0\<rparr>, u\<lparr>streak := 0, streakDate := now\<rparr>))
       \<and> (\<not> now - lastActivity u > 48 * 3600000 \<and>
            toDateString h now \<noteq> toDateString h (streakDate u) \<and> 10 dvd streak u + 1 \<longrightarrow>
            checkAndUpdateStreak h now u =
              (\<lparr>streakBroken = False, streakReward = 10\<rparr>,
               u\<lparr>streak := streak u + 1, streakDate := now, tokens := tokens u + 10\<rparr>))
       \<and> (\<not> now - lastActivity u > 48 * 3600000 \<and>
            toDateString h now \<noteq> toDateString h (streakDate u) \<and> \<not> 10 dvd streak u + 1 \<longrightarrow>
            checkAndUpdateStreak h now u =
              (\<lparr>streakBroken = False, streakReward = 0\<rparr>,
               u\<lparr>streak := streak u + 1, streakDate := now\<rparr>))
       \<and> (\<not> now - lastActivity u > 48 * 3600000 \<and>
            toDateString h now = toDateString h (streakDate u) \<longrightarrow>
            checkAndUpdateStreak h now u = (\<lparr>streakBroken = False, streakReward = 0\<rparr>, u))"
  by (simp add: checkAndUpdateStreak_def Let_def dvd_eq_mod_eq_0)

theorem streak_evaluation_witness:
  "checkAndUpdateStreak lagos (50 * 3600000) (ada 3 7)
     = (\<lparr>streakBroken = True, streakReward = 0\<rparr>,
        (ada 3 7)\<lparr>streak := 0, streakDate := 50 * 3600000\<rparr>)
   \<and> checkAndUpdateStreak lagos (25 * 3600000) (ada 3 9)
     = (\<lparr>streakBroken = False, streakReward = 10\<rparr>,
        (ada 3 9)\<lparr>streak := 10, streakDate := 25 * 3600000, tokens := 13\<rparr>)
   \<and> checkAndUpdateStreak lagos (25 * 3600000) (ada 3 8)
     = (\<lparr>streakBroken = False, streakReward = 0\<rparr>,
        (ada 3 8)\<lparr>streak := 9, streakDate := 25 * 3600000\<rparr>)
   \<and> checkAndUpdateStreak lagos (20 * 3600000) (ada 3 9)
     = (\<lparr>streakBroken = False, streakReward = 0\<rparr>, ada 3 9)"
  using streak_evaluation [of "50 * 3600000" "ada 3 7" lagos]
    streak_evaluation [of "25 * 3600000" "ada 3 9" lagos]
    streak_evaluation [of "25 * 3600000" "ada 3 8" lagos]
    streak_evaluation [of "20 * 3600000" "ada 3 9" lagos]
  by (simp add: ada_def lagos_def toDateString_def msPerDay_def)

section \<open>Keyword check\<close>

lemma startsWith_iff: "startsWith t k \<longleftrightarrow> prefix k t"
  by (induction t k rule: startsWith.induct) auto

lemma includes_str_iff: "includes_str t k \<longleftrightarrow> sublist k t"
proof (induction t)
  case Nil
  then show ?case by (cases k) auto
next
  case (Cons c cs)
  then show ?case
    by (cases k) (auto simp: startsWith_iff sublist_Cons_right)
qed

lemma missingCategories_eq:
  "missingCategories text =
     (if sublist ''payment'' text \<or> sublist ''paid'' text \<or> sublist ''transaction'' text
      then [] else [''payment''])
   @ (if sublist ''flutterwave'' text \<or> sublist ''flutter'' text \<or> sublist ''wave'' text
      then [] else [''platform''])
   @ (if sublist ''1000'' text \<or> sublist ''1,000'' text \<or> sublist ''ngn1000'' text
         \<or> sublist ''ngn1,000'' text
      then [] else [''amount''])
   @ (if sublist ''florence'' text \<or> sublist ''flo'' text then [] else [''identifier''])"
  unfolding missingCategories_def keywordResults_def requiredKeywords_def
  by (simp add: includes_str_iff)

section \<open>Scanning for dates\<close>

lemmas date_eval = checkDates_def validDates_def List.map_filter_def parseDate_def
  dateRegex_at_def dmy_pattern_def ymd_pattern_def is_digit_def is_sep_def to_number_def
  decimal_def newDate_def MakeDay_def DayFromYear_def daysBeforeMonth_def InLeapYear_def
  TimeClip_def UTC_def msPerDay_def lagos_def

lemma matches_at_length: "matches_at p s \<Longrightarrow> length p \<le> length s"
  by (induction p s rule: matches_at.induct) auto

lemma matches_at_append: "matches_at p s \<Longrightarrow> matches_at p (s @ r)"
  by (induction p s rule: matches_at.induct) auto

lemma matches_at_take: "matches_at p s \<Longrightarrow> matches_at p (take (length p) s)"
  by (induction p s rule: matches_at.induct) auto

lemma length_patterns: "length dmy_pattern = 10" "length ymd_pattern = 10"
  by (simp_all add: dmy_pattern_def ymd_pattern_def)

lemma dateRegex_at_length: "dateRegex_at s \<Longrightarrow> 10 \<le> length s"
  unfolding dateRegex_at_def
  using matches_at_length [of dmy_pattern s] matches_at_length [of ymd_pattern s]
  by (auto simp only: length_patterns)

lemma dateRegex_at_take: "dateRegex_at s \<Longrightarrow> dateRegex_at (take 10 s)"
  unfolding dateRegex_at_def
  using matches_at_take [of dmy_pattern s] matches_at_take [of ymd_pattern s]
  by (auto simp only: length_patterns)

lemma dateRegex_at_append: "dateRegex_at s \<Longrightarrow> dateRegex_at (s @ r)"
  unfolding dateRegex_at_def by (auto intro: matches_at_append)

lemma match_dateRegex_elem:
  "m \<in> set (match_dateRegex t) \<Longrightarrow> dateRegex_at m \<and> length m = 10 \<and> sublist m t"
proof (induction t rule: match_dateRegex.induct)
  case 1
  then show ?case by simp
next
  case (2 c cs)
  show ?case
  proof (cases "dateRegex_at (c # cs)")
    case True
    from "2.prems" True
    consider "m = take 10 (c # cs)" | "m \<in> set (match_dateRegex (drop 9 cs))"
      by auto
    then show ?thesis
    proof cases
      case 1
      have "sublist (take 10 (c # cs)) (c # cs)"
        by (rule prefix_imp_sublist) (rule take_is_prefix)
      with 1 True dateRegex_at_take [OF True] dateRegex_at_length [OF True]
      show ?thesis by simp
    next
      case 2
      with "2.IH"(1) [OF True] have "dateRegex_at m" "length m = 10" "sublist m (drop 9 cs)"
        by simp_all
      moreover have "sublist (drop 9 cs) (c # cs)"
        by (rule suffix_imp_sublist) (simp add: suffix_drop suffix_ConsI)
      ultimately show ?thesis by (auto intro: sublist_order.order_trans)
    qed
  next
    case False
    with "2.prems" have "m \<in> set (match_dateRegex cs)" by simp
    with "2.IH"(2) [OF False] have "dateRegex_at m" "length m = 10" "sublist m cs"
      by simp_all
    then show ?thesis by (auto intro: sublist_Cons_right [THEN iffD2])
  qed
qed

lemma match_dateRegex_Nil_suffix:
  "match_dateRegex t = [] \<Longrightarrow> suffix s t \<Longrightarrow> \<not> dateRegex_at s"
proof (induction t rule: match_dateRegex.induct)
  case 1
  then show ?case by (simp add: dateRegex_at_def dmy_pattern_def ymd_pattern_def)
next
  case (2 c cs)
  from "2.prems"(1) have no: "\<not> dateRegex_at (c # cs)" and rest: "match_dateRegex cs = []"
    by (auto split: if_splits)
  from "2.prems"(2) consider "s = c # cs" | "suffix s cs"
    by (auto simp: suffix_Cons)
  then show ?case
    using no "2.IH"(2) [OF no rest] by cases auto
qed

lemma match_dateRegex_Nil_iff:
  "match_dateRegex t = [] \<longleftrightarrow> \<not> (\<exists>m. sublist m t \<and> length m = 10 \<and> dateRegex_at m)"
proof
  assume e: "match_dateRegex t = []"
  show "\<not> (\<exists>m. sublist m t \<and> length m = 10 \<and> dateRegex_at m)"
  proof
    assume "\<exists>m. sublist m t \<and> length m = 10 \<and> dateRegex_at m"
    then obtain m p r where "t = p @ m @ r" "dateRegex_at m"
      by (auto simp: sublist_def)
    then have "suffix (m @ r) t" "dateRegex_at (m @ r)"
      by (auto simp: suffix_def dateRegex_at_append)
    with match_dateRegex_Nil_suffix [OF e] show False by blast
  qed
next
  assume n: "\<not> (\<exists>m. sublist m t \<and> length m = 10 \<and> dateRegex_at m)"
  show "match_dateRegex t = []"
  proof (rule ccontr)
    assume "match_dateRegex t \<noteq> []"
    then obtain m where "m \<in> set (match_dateRegex t)"
      by (cases "match_dateRegex t") auto
    from match_dateRegex_elem [OF this] n show False by blast
  qed
qed


lemma digit_not_sep: "is_digit c \<Longrightarrow> \<not> is_sep c"
  by (auto simp: is_digit_def is_sep_def)

lemma list10:
  assumes "length (m :: 'a list) = 10"
  obtains c0 c1 c2 c3 c4 c5 c6 c7 c8 c9 where "m = [c0, c1, c2, c3, c4, c5, c6, c7, c8, c9]"
proof -
  from assms have "length m = Suc (Suc (Suc (Suc (Suc (Suc (Suc (Suc (Suc (Suc 0)))))))))"
    by simp
  then show thesis
    by (auto simp only: length_Suc_conv length_0_conv intro: that)
qed

lemma to_number_digits: "list_all is_digit s \<Longrightarrow> to_number s = Some (decimal s)"
  by (simp add: to_number_def)

lemma parseDate_parts:
  assumes "split_sep m = [p0, p1, p2]"
    and "list_all is_digit p0" "list_all is_digit p1" "list_all is_digit p2"
  shows "parseDate h m =
           (if length p0 = 4 then newDate h (decimal p0) (decimal p1 - 1) (decimal p2)
            else newDate h (decimal p2) (decimal p1 - 1) (decimal p0))"
  unfolding parseDate_def using assms by (simp add: to_number_digits)

lemma split_dmy:
  assumes "is_digit d1" "is_digit d2" "is_digit m1" "is_digit m2"
      "is_digit y1" "is_digit y2" "is_digit y3" "is_digit y4" "is_sep s1" "is_sep s2"
  shows "split_sep [d1, d2, s1, m1, m2, s2, y1, y2, y3, y4]
           = [[d1, d2], [m1, m2], [y1, y2, y3, y4]]"
  using assms by (simp add: digit_not_sep)

lemma split_ymd:
  assumes "is_digit d1" "is_digit d2" "is_digit m1" "is_digit m2"
      "is_digit y1" "is_digit y2" "is_digit y3" "is_digit y4" "is_sep s1" "is_sep s2"
  shows "split_sep [y1, y2, y3, y4, s1, m1, m2, s2, d1, d2]
           = [[y1, y2, y3, y4], [m1, m2], [d1, d2]]"
  using assms by (simp add: digit_not_sep)

lemma parseDate_dmy:
  assumes "matches_at dmy_pattern m" and "length m = 10"
  shows "length (hd (split_sep m)) = 2
       \<and> parseDate h m
           = newDate h (decimal (drop 6 m)) (decimal (take 2 (drop 3 m)) - 1) (decimal (take 2 m))"
proof -
  from assms(2) obtain d1 d2 s1 m1 m2 s2 y1 y2 y3 y4
    where m: "m = [d1, d2, s1, m1, m2, s2, y1, y2, y3, y4]"
    by (rule list10)
  from assms(1) have d: "is_digit d1" "is_digit d2" "is_digit m1" "is_digit m2"
      "is_digit y1" "is_digit y2" "is_digit y3" "is_digit y4" "is_sep s1" "is_sep s2"
    unfolding m dmy_pattern_def by (simp_all add: is_sep_def)
  have sp: "split_sep m = [[d1, d2], [m1, m2], [y1, y2, y3, y4]]"
    unfolding m by (rule split_dmy) (fact d)+
  have "parseDate h m
          = newDate h (decimal [y1, y2, y3, y4]) (decimal [m1, m2] - 1) (decimal [d1, d2])"
    using parseDate_parts [OF sp] d by simp
  moreover have "drop 6 m = [y1, y2, y3, y4]" "take 2 (drop 3 m) = [m1, m2]" "take 2 m = [d1, d2]"
    by (simp_all add: m)
  ultimately show ?thesis by (simp add: sp)
qed

lemma parseDate_ymd:
  assumes "matches_at ymd_pattern m" and "length m = 10"
  shows "length (hd (split_sep m)) = 4
       \<and> parseDate h m
           = newDate h (decimal (take 4 m)) (decimal (take 2 (drop 5 m)) - 1) (decimal (drop 8 m))"
proof -
  from assms(2) obtain y1 y2 y3 y4 s1 m1 m2 s2 d1 d2
    where m: "m = [y1, y2, y3, y4, s1, m1, m2, s2, d1, d2]"
    by (rule list10)
  from assms(1) have d: "is_digit d1" "is_digit d2" "is_digit m1" "is_digit m2"
      "is_digit y1" "is_digit y2" "is_digit y3" "is_digit y4" "is_sep s1" "is_sep s2"
    unfolding m ymd_pattern_def by (simp_all add: is_sep_def)
  have sp: "split_sep m = [[y1, y2, y3, y4], [m1, m2], [d1, d2]]"
    unfolding m by (rule split_ymd) (fact d)+
  have "parseDate h m
          = newDate h (decimal [y1, y2, y3, y4]) (decimal [m1, m2] - 1) (decimal [d1, d2])"
    using parseDate_parts [OF sp] d by simp
  moreover have "take 4 m = [y1, y2, y3, y4]" "take 2 (drop 5 m) = [m1, m2]" "drop 8 m = [d1, d2]"
    by (simp_all add: m)
  ultimately show ?thesis by (simp add: sp)
qed

lemma parseDate_match:
  assumes "dateRegex_at m" and "length m = 10"
  shows "parseDate h m =
           (if length (hd (split_sep m)) = 4
            then newDate h (decimal (take 4 m)) (decimal (take 2 (drop 5 m)) - 1)
                   (decimal (drop 8 m))
            else newDate h (decimal (drop 6 m)) (decimal (take 2 (drop 3 m)) - 1)
                   (decimal (take 2 m)))"
proof (cases "matches_at ymd_pattern m")
  case True
  with assms(2) show ?thesis
    using parseDate_ymd [of m h] by simp
next
  case False
  with assms(1) have "matches_at dmy_pattern m" by (simp add: dateRegex_at_def)
  with assms(2) show ?thesis
    using parseDate_dmy [of m h] by simp
qed

lemma matches_at_mono:
  "matches_at p s \<Longrightarrow> list_all2 (\<lambda>a b. \<forall>c. atom_matches a c \<longrightarrow> atom_matches b c) p q
     \<Longrightarrow> matches_at q s"
proof (induction p s arbitrary: q rule: matches_at.induct)
  case (1 s)
  then show ?case by simp
next
  case (2 a as)
  then show ?case by simp
next
  case (3 a as c cs)
  then show ?case by (cases q) auto
qed

lemma claimed_formats_covered:
  assumes "p \<in> set claimed_formats" and "matches_at p s"
  shows "dateRegex_at s"
proof -
  from assms(1) consider
      "p = [Digit, Digit, Class ''/'', Digit, Digit, Class ''/'', Digit, Digit, Digit, Digit]"
    | "p = [Digit, Digit, Class ''-'', Digit, Digit, Class ''-'', Digit, Digit, Digit, Digit]"
    | "p = [Digit, Digit, Digit, Digit, Class ''-'', Digit, Digit, Class ''-'', Digit, Digit]"
    unfolding claimed_formats_def by auto
  then show ?thesis
  proof cases
    case 1
    have "list_all2 (\<lambda>a b. \<forall>c. atom_matches a c \<longrightarrow> atom_matches b c) p dmy_pattern"
      unfolding 1 dmy_pattern_def by simp
    from matches_at_mono [OF assms(2) this] show ?thesis by (simp add: dateRegex_at_def)
  next
    case 2
    have "list_all2 (\<lambda>a b. \<forall>c. atom_matches a c \<longrightarrow> atom_matches b c) p dmy_pattern"
      unfolding 2 dmy_pattern_def by simp
    from matches_at_mono [OF assms(2) this] show ?thesis by (simp add: dateRegex_at_def)
  next
    case 3
    have "list_all2 (\<lambda>a b. \<forall>c. atom_matches a c \<longrightarrow> atom_matches b c) p ymd_pattern"
      unfolding 3 ymd_pattern_def by simp
    from matches_at_mono [OF assms(2) this] show ?thesis by (simp add: dateRegex_at_def)
  qed
qed

text \<open>
  On a host whose local time is within a day of UTC every match of the pattern gives a
  date: days and months out of range carry over, and the year is at most 9999.
\<close>

lemma digit_val: "is_digit c \<Longrightarrow> 0 \<le> int (of_char c) - 48 \<and> int (of_char c) - 48 \<le> 9"
  by (auto simp: is_digit_def)

lemma decimal2:
  assumes "is_digit a" "is_digit b"
  shows "0 \<le> decimal [a, b] \<and> decimal [a, b] \<le> 99"
  using digit_val [OF assms(1)] digit_val [OF assms(2)]
  by (simp add: decimal_def)

lemma decimal4:
  assumes "is_digit a" "is_digit b" "is_digit c" "is_digit d"
  shows "0 \<le> decimal [a, b, c, d] \<and> decimal [a, b, c, d] \<le> 9999"
  using digit_val [OF assms(1)] digit_val [OF assms(2)] digit_val [OF assms(3)]
    digit_val [OF assms(4)]
  by (simp add: decimal_def)

lemma div_between:
  fixes a :: int
  assumes "lo \<le> a" "a \<le> hi" "0 < c"
  shows "lo div c \<le> a div c \<and> a div c \<le> hi div c"
  using assms by (simp add: zdiv_mono1)

lemma DayFromYear_bounds:
  assumes "99 \<le> y" "y \<le> 10007"
  shows "- 700000 \<le> DayFromYear y \<and> DayFromYear y \<le> 3000000"
proof -
  have "(99 - 1969) div 4 \<le> (y - 1969) div 4 \<and> (y - 1969) div 4 \<le> (10007 - 1969) div 4"
    using assms by (intro div_between) simp_all
  moreover have "(99 - 1901) div 100 \<le> (y - 1901) div 100
      \<and> (y - 1901) div 100 \<le> (10007 - 1901) div 100"
    using assms by (intro div_between) simp_all
  moreover have "(99 - 1601) div 400 \<le> (y - 1601) div 400
      \<and> (y - 1601) div 400 \<le> (10007 - 1601) div 400"
    using assms by (intro div_between) simp_all
  ultimately show ?thesis
    using assms unfolding DayFromYear_def by simp
qed

lemma daysBeforeMonth_bounds:
  assumes "0 \<le> m" "m < 12"
  shows "0 \<le> daysBeforeMonth y m \<and> daysBeforeMonth y m \<le> 335"
proof -
  let ?table = "[0, 31, 59, 90, 120, 151, 181, 212, 243, 273, 304, 334] :: int list"
  from assms have "nat m < length ?table" by simp
  then have "?table ! nat m \<in> set ?table" by (rule nth_mem)
  then have "0 \<le> ?table ! nat m \<and> ?table ! nat m \<le> 334" by auto
  moreover define x where "x = ?table ! nat m"
  ultimately have "0 \<le> x \<and> x \<le> 334" by simp
  moreover have "daysBeforeMonth y m = x + (if 2 \<le> m \<and> InLeapYear y then 1 else 0)"
    by (simp only: daysBeforeMonth_def x_def)
  ultimately show ?thesis by (simp split: if_split)
qed

lemma MakeDay_bounds:
  assumes "100 \<le> yr" "yr \<le> 9999" "- 1 \<le> m" "m \<le> 98" "0 \<le> d" "d \<le> 99"
  shows "\<bar>MakeDay yr m d\<bar> \<le> 3001000"
proof -
  have "(- 1) div 12 \<le> m div 12 \<and> m div 12 \<le> 98 div 12"
    using assms(3,4) by (intro div_between) simp_all
  then have ym: "99 \<le> yr + m div 12" "yr + m div 12 \<le> 10007"
    using assms(1,2) by simp_all
  have mn: "0 \<le> m mod 12" "m mod 12 < 12" by simp_all
  from DayFromYear_bounds [OF ym] daysBeforeMonth_bounds [OF mn, of "yr + m div 12"] assms(5,6)
  show ?thesis
    unfolding MakeDay_def Let_def by linarith
qed

lemma newDate_Some:
  assumes "sane_host h" "0 \<le> y" "y \<le> 9999" "- 1 \<le> m" "m \<le> 98" "0 \<le> d" "d \<le> 99"
  shows "newDate h y m d \<noteq> None"
proof -
  let ?yr = "if 0 \<le> y \<and> y \<le> 99 then 1900 + y else y"
  have "100 \<le> ?yr" "?yr \<le> 9999" using assms(2,3) by auto
  from MakeDay_bounds [OF this assms(4-7)]
  have "\<bar>MakeDay ?yr m d * msPerDay\<bar> \<le> 3001000 * msPerDay"
    by (simp add: abs_mult msPerDay_def)
  moreover from assms(1) have "\<bar>tza_local h (MakeDay ?yr m d * msPerDay)\<bar> \<le> msPerDay"
    by (simp add: sane_host_def)
  ultimately have "\<bar>UTC h (MakeDay ?yr m d * msPerDay)\<bar> \<le> 3001001 * msPerDay"
    unfolding UTC_def by linarith
  then show ?thesis
    by (simp add: newDate_def Let_def TimeClip_def msPerDay_def)
qed

lemma dmy_numbers:
  assumes "matches_at dmy_pattern m" and "length m = 10"
  shows "0 \<le> decimal (drop 6 m) \<and> decimal (drop 6 m) \<le> 9999
       \<and> 0 \<le> decimal (take 2 (drop 3 m)) \<and> decimal (take 2 (drop 3 m)) \<le> 99
       \<and> 0 \<le> decimal (take 2 m) \<and> decimal (take 2 m) \<le> 99"
proof -
  from assms(2) obtain d1 d2 s1 m1 m2 s2 y1 y2 y3 y4
    where m: "m = [d1, d2, s1, m1, m2, s2, y1, y2, y3, y4]"
    by (rule list10)
  from assms(1) have d: "is_digit d1" "is_digit d2" "is_digit m1" "is_digit m2"
      "is_digit y1" "is_digit y2" "is_digit y3" "is_digit y4"
    unfolding m dmy_pattern_def by simp_all
  have "drop 6 m = [y1, y2, y3, y4]" "take 2 (drop 3 m) = [m1, m2]" "take 2 m = [d1, d2]"
    by (simp_all add: m)
  with decimal4 [OF d(5-8)] decimal2 [OF d(3,4)] decimal2 [OF d(1,2)]
  show ?thesis by simp
qed

lemma ymd_numbers:
  assumes "matches_at ymd_pattern m" and "length m = 10"
  shows "0 \<le> decimal (take 4 m) \<and> decimal (take 4 m) \<le> 9999
       \<and> 0 \<le> decimal (take 2 (drop 5 m)) \<and> decimal (take 2 (drop 5 m)) \<le> 99
       \<and> 0 \<le> decimal (drop 8 m) \<and> decimal (drop 8 m) \<le> 99"
proof -
  from assms(2) obtain y1 y2 y3 y4 s1 m1 m2 s2 d1 d2
    where m: "m = [y1, y2, y3, y4, s1, m1, m2, s2, d1, d2]"
    by (rule list10)
  from assms(1) have d: "is_digit d1" "is_digit d2" "is_digit m1" "is_digit m2"
      "is_digit y1" "is_digit y2" "is_digit y3" "is_digit y4"
    unfolding m ymd_pattern_def by simp_all
  have "take 4 m = [y1, y2, y3, y4]" "take 2 (drop 5 m) = [m1, m2]" "drop 8 m = [d1, d2]"
    by (simp_all add: m)
  with decimal4 [OF d(5-8)] decimal2 [OF d(3,4)] decimal2 [OF d(1,2)]
  show ?thesis by simp
qed

lemma parseDate_Some:
  assumes "sane_host h" and "dateRegex_at m" and "length m = 10"
  shows "parseDate h m \<noteq> None"
proof (cases "matches_at ymd_pattern m")
  case True
  from ymd_numbers [OF True assms(3)] parseDate_ymd [OF True assms(3), of h]
  show ?thesis
    using newDate_Some [OF assms(1), of "decimal (take 4 m)" "decimal (take 2 (drop 5 m)) - 1"
        "decimal (drop 8 m)"]
    by simp
next
  case False
  with assms(2) have dmy: "matches_at dmy_pattern m" by (simp add: dateRegex_at_def)
  from dmy_numbers [OF dmy assms(3)] parseDate_dmy [OF dmy assms(3), of h]
  show ?thesis
    using newDate_Some [OF assms(1), of "decimal (drop 6 m)" "decimal (take 2 (drop 3 m)) - 1"
        "decimal (take 2 m)"]
    by simp
qed

lemma every_match_parses:
  assumes "sane_host h"
  shows "length (validDates h (match_dateRegex t)) = length (match_dateRegex t)"
proof -
  have "\<forall>m \<in> set (match_dateRegex t). parseDate h m \<noteq> None"
    using match_dateRegex_elem parseDate_Some [OF assms] by blast
  then have "filter (\<lambda>m. parseDate h m \<noteq> None) (match_dateRegex t) = match_dateRegex t"
    by (simp add: filter_id_conv)
  then show ?thesis
    by (simp add: validDates_def List.map_filter_def)
qed

lemma sane_lagos: "sane_host lagos"
  by (simp add: sane_host_def lagos_def msPerDay_def)

section \<open>Verification: keywords\<close>

lemmas keyword_eval = missingCategories_def keywordResults_def requiredKeywords_def

text \<open>
  C5. Verification lower-cases the extracted text and checks the four categories
  payment, platform, amount and identifier; a category is satisfied iff one of its
  synonyms is a substring of the text. If a category is unsatisfied the result is invalid
  and its reason lists exactly the missing categories, joined with commas; only when all
  four are satisfied does the date check run.
\<close>

theorem keyword_check:
  "verifyPaymentProof h (PdfText data_text) requestTimestamp =
     (let text = toLowerCase data_text;
          missing =
            (if sublist ''payment'' text \<or> sublist ''paid'' text \<or> sublist ''transaction'' text
             then [] else [''payment''])
          @ (if sublist ''flutterwave'' text \<or> sublist ''flutter'' text \<or> sublist ''wave'' text
             then [] else [''platform''])
          @ (if sublist ''1000'' text \<or> sublist ''1,000'' text \<or> sublist ''ngn1000'' text
                \<or> sublist ''ngn1,000'' text
             then [] else [''amount''])
          @ (if sublist ''florence'' text \<or> sublist ''flo'' text then [] else [''identifier''])
      in if missing = [] then checkDates h text requestTimestamp
         else Invalid (''Missing required information: '' @ join '', '' missing))"
  unfolding verifyPaymentProof_def Let_def pdf_input.case missingCategories_eq [symmetric]
  by simp

lemma lower_no_identifier:
  "toLowerCase ''PAID via Wave: NGN1,000 on 05/03/2025'' = ''paid via wave: ngn1,000 on 05/03/2025''"
  by code_simp

lemma lower_two_missing:
  "toLowerCase ''Transaction for FLORENCE on 05/03/2025''
     = ''transaction for florence on 05/03/2025''"
  by code_simp

lemma lower_complete:
  "toLowerCase ''Paid 1000 via Flutterwave to Florence on 05/03/2025''
     = ''paid 1000 via flutterwave to florence on 05/03/2025''"
  by code_simp

theorem keyword_check_witness:
  "verifyPaymentProof lagos (PdfText ''PAID via Wave: NGN1,000 on 05/03/2025'') 1741132800000
     = Invalid ''Missing required information: identifier''
   \<and> verifyPaymentProof lagos (PdfText ''Transaction for FLORENCE on 05/03/2025'') 1741132800000
     = Invalid ''Missing required information: platform, amount''
   \<and> verifyPaymentProof lagos (PdfText ''Paid 1000 via Flutterwave to Florence on 05/03/2025'')
         1741132800000
     = checkDates lagos ''paid 1000 via flutterwave to florence on 05/03/2025'' 1741132800000"
  using keyword_check [of lagos "''PAID via Wave: NGN1,000 on 05/03/2025''" 1741132800000]
    keyword_check [of lagos "''Transaction for FLORENCE on 05/03/2025''" 1741132800000]
    keyword_check [of lagos "''Paid 1000 via Flutterwave to Florence on 05/03/2025''"
      1741132800000]
  by (simp add: lower_no_identifier lower_two_missing lower_complete
        includes_str_iff [symmetric])

section \<open>Verification: dates\<close>

lemma lower_slash: "toLowerCase ''Paid 1000 via Flutterwave to Florence on 2025/03/05''
                     = ''paid 1000 via flutterwave to florence on 2025/03/05''"
  by code_simp

lemma lower_none: "toLowerCase ''Paid 1000 via Flutterwave to Florence on 5 March 2025''
                     = ''paid 1000 via flutterwave to florence on 5 march 2025''"
  by code_simp


text \<open>
  C6, as the code has it. With all keywords present, verification scans the lower-cased
  text for ten-character substrings of two digits, a separator, two digits, a separator
  and four digits, or of four digits, a separator, two digits, a separator and two digits,
  where each separator is \<open>-\<close> or \<open>/\<close> on its own: the three formats of the
  specification match, and so do \<open>YYYY/MM/DD\<close> and mixed separators. If no substring
  matches the result is invalid. A match whose first token has four digits is read as
  year, month, day, any other as day, month, year; matches that give no date are dropped,
  and if no date remains the result is invalid.
\<close>

theorem date_extraction:
  assumes "missingCategories (toLowerCase data_text) = []"
  shows "let text = toLowerCase data_text; dates = match_dateRegex text in
      (dates = [] \<longleftrightarrow> \<not> (\<exists>m. sublist m text \<and> length m = 10 \<and> dateRegex_at m))
    \<and> (\<forall>p \<in> set claimed_formats. \<forall>s. matches_at p s \<longrightarrow> dateRegex_at s)
    \<and> (dates = [] \<longrightarrow>
         verifyPaymentProof h (PdfText data_text) requestTimestamp
           = Invalid ''No valid date found in payment proof'')
    \<and> (\<forall>m \<in> set dates.
         sublist m text \<and> length m = 10 \<and> dateRegex_at m
         \<and> parseDate h m =
             (if length (hd (split_sep m)) = 4
              then newDate h (decimal (take 4 m)) (decimal (take 2 (drop 5 m)) - 1)
                     (decimal (drop 8 m))
              else newDate h (decimal (drop 6 m)) (decimal (take 2 (drop 3 m)) - 1)
                     (decimal (take 2 m))))
    \<and> validDates h dates = map (the \<circ> parseDate h) (filter (\<lambda>m. parseDate h m \<noteq> None) dates)
    \<and> (validDates h dates = [] \<longrightarrow>
         (\<exists>why. verifyPaymentProof h (PdfText data_text) requestTimestamp = Invalid why))"
proof -
  define low where "low = toLowerCase data_text"
  have v: "verifyPaymentProof h (PdfText data_text) requestTimestamp
             = checkDates h low requestTimestamp"
    using assms by (simp add: verifyPaymentProof_def low_def)
  have 1: "match_dateRegex low = []
             \<longleftrightarrow> \<not> (\<exists>m. sublist m low \<and> length m = 10 \<and> dateRegex_at m)"
    by (rule match_dateRegex_Nil_iff)
  have 2: "\<forall>p \<in> set claimed_formats. \<forall>s. matches_at p s \<longrightarrow> dateRegex_at s"
    using claimed_formats_covered by blast
  have 3: "match_dateRegex low = [] \<longrightarrow>
             verifyPaymentProof h (PdfText data_text) requestTimestamp
               = Invalid ''No valid date found in payment proof''"
    unfolding v by (simp add: checkDates_def)
  have 4: "\<forall>m \<in> set (match_dateRegex low).
         sublist m low \<and> length m = 10 \<and> dateRegex_at m
         \<and> parseDate h m =
             (if length (hd (split_sep m)) = 4
              then newDate h (decimal (take 4 m)) (decimal (take 2 (drop 5 m)) - 1)
                     (decimal (drop 8 m))
              else newDate h (decimal (drop 6 m)) (decimal (take 2 (drop 3 m)) - 1)
                     (decimal (take 2 m)))"
    using match_dateRegex_elem parseDate_match by blast
  have 5: "validDates h (match_dateRegex low)
             = map (the \<circ> parseDate h) (filter (\<lambda>m. parseDate h m \<noteq> None) (match_dateRegex low))"
    by (simp add: validDates_def List.map_filter_def)
  have 6: "validDates h (match_dateRegex low) = [] \<longrightarrow>
         (\<exists>why. verifyPaymentProof h (PdfText data_text) requestTimestamp = Invalid why)"
    unfolding v by (simp add: checkDates_def Let_def)
  from 1 2 3 4 5 6 show ?thesis
    unfolding Let_def low_def [symmetric] by (intro conjI)
qed

theorem date_extraction_witness:
  "verifyPaymentProof lagos (PdfText ''Paid 1000 via Flutterwave to Florence on 5 March 2025'')
         1741132800000
       = Invalid ''No valid date found in payment proof''
   \<and> match_dateRegex (toLowerCase ''Paid 1000 via Flutterwave to Florence on 2025/03/05'')
       = [''2025/03/05'']
   \<and> parseDate lagos ''2025/03/05'' = newDate lagos 2025 2 5
   \<and> validDates lagos [''2025/03/05''] = [1741129200000]"
  using date_extraction [of "''Paid 1000 via Flutterwave to Florence on 5 March 2025''" lagos
      1741132800000]
    date_extraction [of "''Paid 1000 via Flutterwave to Florence on 2025/03/05''" lagos
      1741132800000]
  unfolding lower_slash lower_none
  by (simp add: keyword_eval date_eval)

text \<open>
  C6 as stated fails: a text whose only date is written \<open>2025/03/05\<close> holds none of the
  three formats of the specification, and is accepted.
\<close>

theorem date_formats_counterexample:
  "\<not> claimed_date_occurs (toLowerCase ''Paid 1000 via Flutterwave to Florence on 2025/03/05'')
   \<and> verifyPaymentProof lagos (PdfText ''Paid 1000 via Flutterwave to Florence on 2025/03/05'')
         1741132800000
       = Valid 1741129200000 ''1000 NGN'' ''Flutterwave''"
  unfolding lower_slash verifyPaymentProof_def pdf_input.case
  by (simp add: claimed_date_occurs_def claimed_formats_def is_digit_def keyword_eval date_eval)

text \<open>
  C7. When at least one date parses, the latest of them is the claimed payment date; the
  proof is accepted, with that date and the fixed details, iff the date and the request
  timestamp are at most 24 hours apart, and otherwise rejected for its timeframe.
\<close>

theorem latest_date_window:
  assumes "missingCategories (toLowerCase data_text) = []"
    and "validDates h (match_dateRegex (toLowerCase data_text)) \<noteq> []"
  shows "verifyPaymentProof h (PdfText data_text) requestTimestamp =
     (let latest = Max (set (validDates h (match_dateRegex (toLowerCase data_text))))
      in if \<bar>latest - requestTimestamp\<bar> \<le> 24 * 3600000
         then Valid latest ''1000 NGN'' ''Flutterwave''
         else Invalid ''Payment date is outside acceptable timeframe'')"
proof -
  from assms(2) obtain d ds
    where v: "validDates h (match_dateRegex (toLowerCase data_text)) = d # ds"
    by (cases "validDates h (match_dateRegex (toLowerCase data_text))") auto
  then have ne: "match_dateRegex (toLowerCase data_text) \<noteq> []"
    by (auto simp: validDates_def List.map_filter_def)
  have "fold max ds d = Max (set (d # ds))"
    by (rule Max.set_eq_fold [symmetric])
  with assms(1) v ne show ?thesis
    by (simp add: verifyPaymentProof_def checkDates_def Let_def)
qed

lemma lower_two: "toLowerCase ''Paid 1000 via Flutterwave to Florence on 05/03/2025, due 2025-03-04''
                     = ''paid 1000 via flutterwave to florence on 05/03/2025, due 2025-03-04''"
  by code_simp

lemma two_dates:
  "missingCategories ''paid 1000 via flutterwave to florence on 05/03/2025, due 2025-03-04'' = []"
  "validDates lagos
     (match_dateRegex ''paid 1000 via flutterwave to florence on 05/03/2025, due 2025-03-04'')
     = [1741129200000, 1741042800000]"
  by (simp_all add: keyword_eval date_eval)

theorem latest_date_window_witness:
  "verifyPaymentProof lagos
       (PdfText ''Paid 1000 via Flutterwave to Florence on 05/03/2025, due 2025-03-04'')
       1741132800000
     = Valid 1741129200000 ''1000 NGN'' ''Flutterwave''
   \<and> verifyPaymentProof lagos
       (PdfText ''Paid 1000 via Flutterwave to Florence on 05/03/2025, due 2025-03-04'')
       (1741129200000 + 24 * 3600000)
     = Valid 1741129200000 ''1000 NGN'' ''Flutterwave''
   \<and> verifyPaymentProof lagos
       (PdfText ''Paid 1000 via Flutterwave to Florence on 05/03/2025, due 2025-03-04'')
       (1741129200000 + 24 * 3600000 + 1)
     = Invalid ''Payment date is outside acceptable timeframe''"
  using
    latest_date_window [of "''Paid 1000 via Flutterwave to Florence on 05/03/2025, due 2025-03-04''"
      lagos 1741132800000]
    latest_date_window [of "''Paid 1000 via Flutterwave to Florence on 05/03/2025, due 2025-03-04''"
      lagos "1741129200000 + 24 * 3600000"]
    latest_date_window [of "''Paid 1000 via Flutterwave to Florence on 05/03/2025, due 2025-03-04''"
      lagos "1741129200000 + 24 * 3600000 + 1"]
  unfolding lower_two two_dates
  by simp

section \<open>Telegram: payment requests and credits\<close>

lemma set_user_same:
  "tg_id user = from_id ctx \<Longrightarrow>
     set_user ctx user s = s\<lparr>floDb_tg := (floDb_tg s)(from_id ctx \<mapsto> user)\<rparr>"
  by (simp add: set_user_def)

lemma wf_db_set_user:
  "wf_db s \<Longrightarrow> tg_id user = from_id ctx \<Longrightarrow> wf_db (set_user ctx user s)"
  by (simp add: set_user_same wf_db_def)

lemma wf_db_paymentRequests [simp]: "wf_db (s\<lparr>paymentRequests := m\<rparr>) = wf_db s"
  by (simp add: wf_db_def)

lemma wf_db_init: "wf_db tg_init"
  by (simp add: wf_db_def tg_init_def)

lemma wf_db_lookup: "wf_db s \<Longrightarrow> floDb_tg s k = Some u \<Longrightarrow> tg_id u = k"
  by (simp add: wf_db_def)

lemma wf_db_middleware: "wf_db s \<Longrightarrow> wf_db (middleware ctx s)"
  unfolding middleware_def Let_def
  by (auto intro!: wf_db_set_user dest: wf_db_lookup simp: addUser_tg_def split: option.splits)

lemma middleware_paymentRequests [simp]:
  "paymentRequests (middleware ctx s) = paymentRequests s"
  by (simp add: middleware_def set_user_def Let_def)

lemma middleware_user:
  "\<not> from_is_bot ctx \<Longrightarrow> wf_db s \<Longrightarrow>
     \<exists>u. floDb_tg (middleware ctx s) (from_id ctx) = Some u \<and> lastActive u = t_active ctx
         \<and> tg_id u = from_id ctx"
  unfolding middleware_def Let_def
  by (auto dest: wf_db_lookup simp: set_user_def addUser_tg_def split: option.splits)

lemma wf_db_on_command: "wf_db s \<Longrightarrow> wf_db (snd (on_command name ctx s))"
  by (auto simp: on_command_def split: option.splits)

lemma wf_db_on_document: "wf_db s \<Longrightarrow> wf_db (snd (on_document h ctx mime dl s))"
  unfolding on_document_def Let_def
  by (auto intro!: wf_db_set_user dest: wf_db_lookup
      split: option.splits pdf_download.splits verification.splits)

lemma wf_db_on_message: "wf_db s \<Longrightarrow> wf_db (snd (on_message ctx n r c s))"
  unfolding on_message_def Let_def
  by (auto intro!: wf_db_set_user dest: wf_db_lookup split: option.splits)

lemma wf_db_handle: "wf_db s \<Longrightarrow> wf_db (snd (tg_handle h ctx s))"
  unfolding tg_handle_def
  by (auto simp: wf_db_on_command wf_db_on_document wf_db_on_message
      split: tg_message.splits option.splits)

lemma wf_db_update: "wf_db s \<Longrightarrow> wf_db (snd (tg_update h ctx s))"
  by (simp add: tg_update_def wf_db_handle wf_db_middleware)

lemma wf_db_run: "wf_db s \<Longrightarrow> wf_db (tg_run h ctxs s)"
  by (induction ctxs arbitrary: s) (simp_all add: wf_db_update)


lemma on_command_marker:
  assumes "wf_db s"
  shows "fst (on_command name ctx s) \<noteq> PaymentVerified
       \<and> paymentRequests (snd (on_command name ctx s)) uid =
           (if from_id ctx = uid \<and> fst (on_command name ctx s) = PaymentRequested
            then Some (t_handler ctx) else paymentRequests s uid)"
  using assms
  by (auto simp: on_command_def dest: wf_db_lookup split: option.splits)

lemma on_document_no_user:
  "floDb_tg s (from_id ctx) = None \<Longrightarrow>
     on_document h ctx mime dl s
       = (if mime \<noteq> Some ''application/pdf'' then AskedForPdf else Threw, s)"
  by (simp add: on_document_def)

lemma on_document_user:
  assumes "floDb_tg s (from_id ctx) = Some user" and "tg_id user = from_id ctx"
  shows "on_document h ctx mime dl s =
     (if mime \<noteq> Some ''application/pdf'' then (AskedForPdf, s)
      else case paymentRequests s (from_id ctx) of
        None \<Rightarrow> (AskedForPaymentsFirst, s)
      | Some requestTimestamp \<Rightarrow>
          (case dl of
             DownloadFails \<Rightarrow> (ProofError, s)
           | Downloaded pdfBuffer \<Rightarrow>
               (case verifyPaymentProof h pdfBuffer requestTimestamp of
                  Valid d a p \<Rightarrow>
                    (PaymentVerified,
                     s\<lparr>floDb_tg := (floDb_tg s)(from_id ctx \<mapsto> user\<lparr>tokens := tokens user + 10\<rparr>),
                       paymentRequests := (paymentRequests s)(from_id ctx := None)\<rparr>)
                | Invalid why \<Rightarrow> (VerificationFailed why, s))))"
  using assms
  by (simp add: on_document_def Let_def set_user_same
      split: option.split pdf_download.split verification.split)

lemma on_document_marker:
  assumes "wf_db s"
  shows "fst (on_document h ctx mime dl s) \<noteq> PaymentRequested
       \<and> paymentRequests (snd (on_document h ctx mime dl s)) uid =
           (if from_id ctx = uid \<and> fst (on_document h ctx mime dl s) = PaymentVerified
            then None else paymentRequests s uid)"
proof (cases "floDb_tg s (from_id ctx)")
  case None
  then show ?thesis by (simp add: on_document_no_user)
next
  case (Some user)
  with assms have "tg_id user = from_id ctx" by (rule wf_db_lookup)
  from on_document_user [OF Some this] show ?thesis
    by (simp split: option.split pdf_download.split verification.split)
qed

lemma on_message_marker:
  "fst (on_message ctx n r c s) \<noteq> PaymentRequested
   \<and> fst (on_message ctx n r c s) \<noteq> PaymentVerified
   \<and> paymentRequests (snd (on_message ctx n r c s)) = paymentRequests s"
  unfolding on_message_def Let_def
  by (auto simp: set_user_def split: option.splits)

lemma handle_marker:
  assumes "wf_db s"
  shows "paymentRequests (snd (tg_handle h ctx s)) uid =
           (if from_id ctx = uid \<and> fst (tg_handle h ctx s) = PaymentRequested
            then Some (t_handler ctx)
            else if from_id ctx = uid \<and> fst (tg_handle h ctx s) = PaymentVerified then None
            else paymentRequests s uid)"
proof (cases "message ctx")
  case (Document mime dl)
  then show ?thesis
    using on_document_marker [OF assms, of h ctx mime dl uid]
    by (simp add: tg_handle_def)
next
  case (Message cmd n r c)
  show ?thesis
  proof (cases "\<exists>name. cmd = Some name \<and> name \<in> set tg_commands")
    case True
    then obtain name where "cmd = Some name" "name \<in> set tg_commands" by blast
    with Message show ?thesis
      using on_command_marker [OF assms, of name ctx uid]
      by (simp add: tg_handle_def)
  next
    case False
    with Message have "tg_handle h ctx s = on_message ctx n r c s"
      by (cases cmd) (auto simp: tg_handle_def)
    then show ?thesis
      using on_message_marker [of ctx n r c s] by simp
  qed
qed

lemma update_marker:
  assumes "wf_db s"
  shows "paymentRequests (snd (tg_update h ctx s)) uid =
           (if from_id ctx = uid \<and> fst (tg_update h ctx s) = PaymentRequested
            then Some (t_handler ctx)
            else if from_id ctx = uid \<and> fst (tg_update h ctx s) = PaymentVerified then None
            else paymentRequests s uid)"
  unfolding tg_update_def
  using handle_marker [OF wf_db_middleware [OF assms, of ctx], of h ctx uid]
  by simp

lemma payments_outcome:
  assumes "wf_db s" and "\<not> from_is_bot ctx" and "message ctx = Message (Some ''payments'') n r c"
  shows "fst (tg_update h ctx s) = PaymentRequested"
proof -
  from middleware_user [OF assms(2) assms(1)] obtain u
    where "floDb_tg (middleware ctx s) (from_id ctx) = Some u" by blast
  with assms(3) show ?thesis
    by (simp add: tg_update_def tg_handle_def tg_commands_def on_command_def)
qed

lemma verified_needs_marker:
  assumes "wf_db s" and "fst (tg_update h ctx s) = PaymentVerified"
  shows "paymentRequests s (from_id ctx) \<noteq> None"
proof -
  let ?s1 = "middleware ctx s"
  have wf1: "wf_db ?s1" using assms(1) by (rule wf_db_middleware)
  show ?thesis
  proof (cases "message ctx")
    case (Document mime dl)
    with assms(2) have v: "fst (on_document h ctx mime dl ?s1) = PaymentVerified"
      by (simp add: tg_update_def tg_handle_def)
    show ?thesis
    proof (cases "floDb_tg ?s1 (from_id ctx)")
      case None
      with v show ?thesis by (simp add: on_document_no_user split: if_splits)
    next
      case (Some user)
      with wf1 have "tg_id user = from_id ctx" by (rule wf_db_lookup)
      from on_document_user [OF Some this, of h mime dl] v show ?thesis
        by (auto split: if_splits option.splits pdf_download.splits verification.splits)
    qed
  next
    case (Message cmd n r c)
    show ?thesis
    proof (cases "\<exists>name. cmd = Some name \<and> name \<in> set tg_commands")
      case True
      then obtain name where "cmd = Some name" "name \<in> set tg_commands" by blast
      with Message assms(2) show ?thesis
        using on_command_marker [OF wf1, of name ctx "from_id ctx"]
        by (simp add: tg_update_def tg_handle_def)
    next
      case False
      with Message have "tg_handle h ctx ?s1 = on_message ctx n r c ?s1"
        by (cases cmd) (auto simp: tg_handle_def)
      with assms(2) show ?thesis
        using on_message_marker [of ctx n r c ?s1] by (simp add: tg_update_def)
    qed
  qed
qed


text \<open>
  C10. A document handled for a known user is accepted iff it is a PDF, the user has a
  payment-request marker, the download succeeds and verification against the marker's
  timestamp is valid. An accepted proof adds exactly 10 tokens to that user's balance and
  deletes the marker, in one step and with no other change; every other document leaves
  the state as it was, so it credits nothing.
\<close>

theorem payment_credit:
  assumes "floDb_tg s (from_id ctx) = Some user" and "tg_id user = from_id ctx"
  shows "(\<forall>ts pdf d a p.
            mime = Some ''application/pdf'' \<and> paymentRequests s (from_id ctx) = Some ts
            \<and> dl = Downloaded pdf \<and> verifyPaymentProof h pdf ts = Valid d a p \<longrightarrow>
            on_document h ctx mime dl s =
              (PaymentVerified,
               s\<lparr>floDb_tg := (floDb_tg s)(from_id ctx \<mapsto> user\<lparr>tokens := tokens user + 10\<rparr>),
                 paymentRequests := (paymentRequests s)(from_id ctx := None)\<rparr>))
       \<and> (\<not> (\<exists>ts pdf d a p.
            mime = Some ''application/pdf'' \<and> paymentRequests s (from_id ctx) = Some ts
            \<and> dl = Downloaded pdf \<and> verifyPaymentProof h pdf ts = Valid d a p) \<longrightarrow>
            snd (on_document h ctx mime dl s) = s
            \<and> fst (on_document h ctx mime dl s) \<noteq> PaymentVerified)"
  unfolding on_document_user [OF assms]
  by (auto split: option.splits pdf_download.splits verification.splits)

lemma accepted_proof:
  "verifyPaymentProof lagos (PdfText ''Paid 1000 via Flutterwave to Florence on 05/03/2025'')
     1741132800000 = Valid 1741129200000 ''1000 NGN'' ''Flutterwave''"
  unfolding verifyPaymentProof_def pdf_input.case lower_complete
  by (simp add: keyword_eval date_eval)

lemma rejected_proof:
  "verifyPaymentProof lagos (PdfText ''PAID via Wave: NGN1,000 on 05/03/2025'')
     1741132800000 = Invalid ''Missing required information: identifier''"
  unfolding verifyPaymentProof_def pdf_input.case lower_no_identifier
  by (simp add: keyword_eval)

theorem payment_credit_witness:
  "on_document lagos (from_bola 1741140000000 (pdf_doc ''x'')) (Some ''application/pdf'')
       (Downloaded (PdfText ''Paid 1000 via Flutterwave to Florence on 05/03/2025'')) bola_waiting
     = (PaymentVerified,
        bola_waiting\<lparr>floDb_tg := (floDb_tg bola_waiting)(7 \<mapsto> bola\<lparr>tokens := 13\<rparr>),
          paymentRequests := (paymentRequests bola_waiting)(7 := None)\<rparr>)
   \<and> snd (on_document lagos (from_bola 1741140000000 (pdf_doc ''x'')) (Some ''application/pdf'')
       (Downloaded (PdfText ''PAID via Wave: NGN1,000 on 05/03/2025'')) bola_waiting)
     = bola_waiting"
proof -
  let ?ctx = "from_bola 1741140000000 (pdf_doc ''x'')"
  have u: "floDb_tg bola_waiting (from_id ?ctx) = Some bola" "tg_id bola = from_id ?ctx"
    by (simp_all add: bola_waiting_def from_bola_def bola_def)
  have m: "paymentRequests bola_waiting (from_id ?ctx) = Some 1741132800000"
    by (simp add: bola_waiting_def from_bola_def)
  have i: "from_id ?ctx = 7" "tokens bola = 3" by (simp_all add: from_bola_def bola_def)
  show ?thesis
    using payment_credit [OF u, of "Some ''application/pdf''"
        "Downloaded (PdfText ''Paid 1000 via Flutterwave to Florence on 05/03/2025'')" lagos]
      payment_credit [OF u, of "Some ''application/pdf''"
        "Downloaded (PdfText ''PAID via Wave: NGN1,000 on 05/03/2025'')" lagos]
      accepted_proof rejected_proof m
    by (simp add: i)
qed


lemma tg_run_snoc: "tg_run h (ctxs @ [c]) s = snd (tg_update h c (tg_run h ctxs s))"
  by (induction ctxs arbitrary: s) simp_all

lemma tg_trace_snoc:
  "tg_trace h (ctxs @ [c]) s
     = tg_trace h ctxs s @ [(c, fst (tg_update h c (tg_run h ctxs s)))]"
  by (induction ctxs arbitrary: s) simp_all

lemma outstanding_Nil: "\<not> outstanding uid []"
  by (simp add: outstanding_def)

lemma outstanding_snoc:
  "outstanding uid (evs @ [e])
     \<longleftrightarrow> declared uid e \<or> (outstanding uid evs \<and> \<not> consumed uid e)"
proof
  assume "outstanding uid (evs @ [e])"
  then obtain before ev after where
    split: "evs @ [e] = before @ ev # after" and d: "declared uid ev"
    and n: "\<forall>x \<in> set after. \<not> consumed uid x"
    unfolding outstanding_def by blast
  show "declared uid e \<or> (outstanding uid evs \<and> \<not> consumed uid e)"
  proof (cases after rule: rev_cases)
    case Nil
    with split d show ?thesis by simp
  next
    case (snoc after' x)
    with split have "evs @ [e] = (before @ ev # after') @ [x]" by simp
    then have "evs = before @ ev # after'" "x = e"
      by (simp_all only: append1_eq_conv)
    with d n snoc have "evs = before @ ev # after' \<and> declared uid ev
        \<and> (\<forall>x \<in> set after'. \<not> consumed uid x)" and nc: "\<not> consumed uid e"
      by simp_all
    then have "outstanding uid evs"
      unfolding outstanding_def by blast
    with nc show ?thesis by simp
  qed
next
  assume "declared uid e \<or> (outstanding uid evs \<and> \<not> consumed uid e)"
  then show "outstanding uid (evs @ [e])"
  proof
    assume "declared uid e"
    then have "evs @ [e] = evs @ e # [] \<and> declared uid e \<and> (\<forall>x \<in> set []. \<not> consumed uid x)"
      by simp
    then show ?thesis unfolding outstanding_def by blast
  next
    assume a: "outstanding uid evs \<and> \<not> consumed uid e"
    then obtain before ev after where
      "evs = before @ ev # after" "declared uid ev" "\<forall>x \<in> set after. \<not> consumed uid x"
      unfolding outstanding_def by blast
    with a have "evs @ [e] = before @ ev # (after @ [e]) \<and> declared uid ev
        \<and> (\<forall>x \<in> set (after @ [e]). \<not> consumed uid x)"
      by simp
    then show ?thesis unfolding outstanding_def by blast
  qed
qed

lemma marker_iff_outstanding:
  assumes "wf_db s" and "paymentRequests s uid = None"
  shows "paymentRequests (tg_run h ctxs s) uid \<noteq> None \<longleftrightarrow> outstanding uid (tg_trace h ctxs s)"
proof (induction ctxs rule: rev_induct)
  case Nil
  with assms(2) show ?case by (simp add: outstanding_Nil)
next
  case (snoc c ctxs)
  have wf: "wf_db (tg_run h ctxs s)" using assms(1) by (rule wf_db_run)
  show ?case
    unfolding tg_run_snoc tg_trace_snoc outstanding_snoc update_marker [OF wf]
    using snoc.IH by (auto simp: declared_def consumed_def)
qed

text \<open>
  C8, as the code has it: the lifecycle of the marker on the Telegram channel. A /payments
  command of a known Telegram sender stores the handler's clock as that sender's marker,
  whatever was stored before. An accepted proof finds a marker and deletes it; an update
  that neither declares nor accepts leaves every marker in place, so a rejected proof can
  be sent again. No update touches another user's marker. Hence, from the empty state, a
  Telegram user has a marker iff the trace holds a declaration of that user with no
  accepted proof of that user after it.
\<close>

theorem marker_lifecycle:
  "(wf_db s \<and> \<not> from_is_bot ctx \<and> message ctx = Message (Some ''payments'') n r c \<longrightarrow>
      fst (tg_update h ctx s) = PaymentRequested
      \<and> paymentRequests (snd (tg_update h ctx s)) (from_id ctx) = Some (t_handler ctx))
   \<and> (wf_db s \<and> fst (tg_update h ctx s) = PaymentVerified \<longrightarrow>
      paymentRequests s (from_id ctx) \<noteq> None
      \<and> paymentRequests (snd (tg_update h ctx s)) (from_id ctx) = None)
   \<and> (wf_db s \<and> fst (tg_update h ctx s) \<noteq> PaymentVerified
       \<and> fst (tg_update h ctx s) \<noteq> PaymentRequested \<longrightarrow>
      paymentRequests (snd (tg_update h ctx s)) = paymentRequests s)
   \<and> (wf_db s \<and> uid \<noteq> from_id ctx \<longrightarrow>
      paymentRequests (snd (tg_update h ctx s)) uid = paymentRequests s uid)
   \<and> (paymentRequests (tg_run h ctxs tg_init) uid \<noteq> None
        \<longleftrightarrow> outstanding uid (tg_trace h ctxs tg_init))"
proof (intro conjI impI)
  assume a: "wf_db s \<and> \<not> from_is_bot ctx \<and> message ctx = Message (Some ''payments'') n r c"
  then show o: "fst (tg_update h ctx s) = PaymentRequested"
    using payments_outcome by blast
  from a show "paymentRequests (snd (tg_update h ctx s)) (from_id ctx) = Some (t_handler ctx)"
    using update_marker [of s h ctx "from_id ctx"] o by simp
next
  assume a: "wf_db s \<and> fst (tg_update h ctx s) = PaymentVerified"
  then show "paymentRequests s (from_id ctx) \<noteq> None"
    using verified_needs_marker by blast
  from a show "paymentRequests (snd (tg_update h ctx s)) (from_id ctx) = None"
    using update_marker [of s h ctx "from_id ctx"] by simp
next
  assume "wf_db s \<and> fst (tg_update h ctx s) \<noteq> PaymentVerified
       \<and> fst (tg_update h ctx s) \<noteq> PaymentRequested"
  then show "paymentRequests (snd (tg_update h ctx s)) = paymentRequests s"
    using update_marker [of s h ctx] by (intro ext) simp
next
  assume "wf_db s \<and> uid \<noteq> from_id ctx"
  then show "paymentRequests (snd (tg_update h ctx s)) uid = paymentRequests s uid"
    using update_marker [of s h ctx uid] by auto
next
  show "paymentRequests (tg_run h ctxs tg_init) uid \<noteq> None
        \<longleftrightarrow> outstanding uid (tg_trace h ctxs tg_init)"
    by (rule marker_iff_outstanding) (simp_all add: wf_db_init, simp add: tg_init_def)
qed


lemmas tg_eval = tg_update_def tg_handle_def middleware_def set_user_def on_command_def
  on_document_def on_message_def addUser_tg_def tg_commands_def tg_init_def from_bola_def
  pdf_doc_def bola_def bola_waiting_def declares_payment_def sends_bad_proof_def
  sends_good_proof_def declares_again_def Let_def

lemma wf_db_bola_waiting: "wf_db bola_waiting"
  by (simp add: wf_db_def bola_waiting_def bola_def)

lemma after_declaration:
  "paymentRequests (tg_run lagos [declares_payment] tg_init) 7 = Some 1741132800000"
  by (simp add: tg_eval)

lemma after_rejection:
  "paymentRequests (tg_run lagos [declares_payment, sends_bad_proof] tg_init) 7
     = Some 1741132800000"
  by (simp add: tg_eval rejected_proof)

lemma after_acceptance:
  "paymentRequests (tg_run lagos [declares_payment, sends_bad_proof, sends_good_proof] tg_init) 7
     = None"
  by (simp add: tg_eval rejected_proof accepted_proof)

lemma bad_proof_outcome:
  "fst (tg_update lagos sends_bad_proof bola_waiting)
     = VerificationFailed ''Missing required information: identifier''"
  by (simp add: tg_eval rejected_proof)

lemma good_proof_outcome: "fst (tg_update lagos sends_good_proof bola_waiting) = PaymentVerified"
  by (simp add: tg_eval accepted_proof)

theorem marker_lifecycle_witness:
  "paymentRequests (snd (tg_update lagos declares_payment tg_init)) 7 = Some 1741132800000
   \<and> paymentRequests (snd (tg_update lagos declares_again bola_waiting)) 7 = Some 1741139999000
   \<and> paymentRequests (snd (tg_update lagos sends_good_proof bola_waiting)) 7 = None
   \<and> paymentRequests (snd (tg_update lagos sends_bad_proof bola_waiting))
       = paymentRequests bola_waiting
   \<and> outstanding 7 (tg_trace lagos [declares_payment, sends_bad_proof] tg_init)
   \<and> \<not> outstanding 7
         (tg_trace lagos [declares_payment, sends_bad_proof, sends_good_proof] tg_init)"
proof -
  have ids: "from_id declares_payment = 7" "from_id declares_again = 7"
    "from_id sends_good_proof = 7" "from_id sends_bad_proof = 7"
    "\<not> from_is_bot declares_payment" "\<not> from_is_bot declares_again"
    "t_handler declares_payment = 1741132800000" "t_handler declares_again = 1741139999000"
    "message declares_payment = Message (Some ''payments'') 0 True True"
    "message declares_again = Message (Some ''payments'') 0 True True"
    by (simp_all add: declares_payment_def declares_again_def sends_good_proof_def
        sends_bad_proof_def from_bola_def)
  have 1: "paymentRequests (snd (tg_update lagos declares_payment tg_init)) 7
             = Some 1741132800000"
    using marker_lifecycle [where s = tg_init and ctx = declares_payment and h = lagos
        and n = 0 and r = True and c = True] wf_db_init ids
    by simp
  have 2: "paymentRequests (snd (tg_update lagos declares_again bola_waiting)) 7
             = Some 1741139999000"
    using marker_lifecycle [where s = bola_waiting and ctx = declares_again and h = lagos
        and n = 0 and r = True and c = True] wf_db_bola_waiting ids
    by simp
  have 3: "paymentRequests (snd (tg_update lagos sends_good_proof bola_waiting)) 7 = None"
    using marker_lifecycle [where s = bola_waiting and ctx = sends_good_proof and h = lagos]
      wf_db_bola_waiting good_proof_outcome ids
    by simp
  have 4: "paymentRequests (snd (tg_update lagos sends_bad_proof bola_waiting))
             = paymentRequests bola_waiting"
    using marker_lifecycle [where s = bola_waiting and ctx = sends_bad_proof and h = lagos]
      wf_db_bola_waiting bad_proof_outcome
    by simp
  have 5: "outstanding 7 (tg_trace lagos [declares_payment, sends_bad_proof] tg_init)"
    using marker_lifecycle [where h = lagos and uid = 7
        and ctxs = "[declares_payment, sends_bad_proof]"] after_rejection
    by simp
  have 6: "\<not> outstanding 7
         (tg_trace lagos [declares_payment, sends_bad_proof, sends_good_proof] tg_init)"
    using marker_lifecycle [where h = lagos and uid = 7
        and ctxs = "[declares_payment, sends_bad_proof, sends_good_proof]"] after_acceptance
    by simp
  from 1 2 3 4 5 6 show ?thesis by (intro conjI)
qed

lemmas wa_eval = whatsapp_def isNewUser_def getUser_wa_def wa_existing_def wa_prompt_def
  checkAndUpdateTokenRewards_def hoursSinceLastReward_def checkAndUpdateStreak_def
  updateUserActivity_def toDateString_def msPerDay_def status_of_def wa_msg_def ada_def
  lagos_def Let_def

text \<open>
  A WhatsApp request leaves the Telegram state alone, so the markers after any sequence of
  events are those after its Telegram updates.
\<close>

lemma whatsapp_keeps_telegram: "telegram (handle_event h (WhatsappPost r) s) = telegram s"
  by (simp add: handle_event_def)

lemma telegram_of_events:
  "telegram (handle_events h evs s) = tg_run h (telegram_updates evs) (telegram s)"
proof (induction evs arbitrary: s)
  case Nil
  then show ?case by simp
next
  case (Cons ev evs)
  then show ?case by (cases ev) (simp_all add: handle_event_def)
qed

text \<open>
  C8 as stated fails for a WhatsApp user: Ada sends \<open>/payments\<close>, the request is served
  with the payment link and status 200, and no marker exists afterwards.
\<close>

theorem whatsapp_payments_counterexample:
  "fst (whatsapp lagos (wa_msg ''text'' ''/payments'' 3600000 True) [ada 5 0]) = Status200
   \<and> dom (paymentRequests (telegram
        (handle_event lagos (WhatsappPost (wa_msg ''text'' ''/payments'' 3600000 True))
           \<lparr>floDb_wa = [ada 5 0], telegram = tg_init\<rparr>))) = {}"
  by (simp add: handle_event_def tg_init_def wa_eval)

section \<open>Spending and refunding\<close>

lemma on_message_user:
  assumes "floDb_tg s (from_id ctx) = Some user" and "tg_id user = from_id ctx"
  shows "on_message ctx n r c s =
     (let requiredTokens = (if n > 0 then 2 * int n else 1)
      in if n > 5 then (TooManyAttachments, s)
         else if tokens user < requiredTokens then (NotEnoughTokens, s)
         else if r \<and> c then
           (Answered,
            s\<lparr>floDb_tg := (floDb_tg s)(from_id ctx \<mapsto> user\<lparr>tokens := tokens user - requiredTokens\<rparr>)\<rparr>)
         else (ApologisedAndRefunded, s))"
proof -
  have "s\<lparr>floDb_tg := (floDb_tg s)(from_id ctx \<mapsto> user)\<rparr> = s"
    using assms(1) by (simp add: fun_upd_idem)
  with assms show ?thesis
    by (simp add: on_message_def Let_def set_user_same)
qed

lemma wa_existing_order:
  fixes user0 :: wa_user
  shows "snd (wa_existing h r user0) =
     (let (tokenReward, user) = checkAndUpdateTokenRewards (t_reward r) user0;
          (info, touched) =
             checkAndUpdateStreak h (t_streak r) (updateUserActivity (t_activity r) user)
      in if (tokenReward > 0 \<and> \<not> delivers r RewardNote) \<or> wa_is_command (req_Body r)
            \<or> tokens user \<le> 0
         then user
         else if streakReward info > 0 \<and> \<not> delivers r StreakNote then touched
         else touched\<lparr>tokens := tokens touched - wa_charge r\<rparr>)"
proof -
  obtain tokenReward user where rw: "checkAndUpdateTokenRewards (t_reward r) user0 = (tokenReward, user)"
    by (cases "checkAndUpdateTokenRewards (t_reward r) user0")
  obtain info touched where
    st: "checkAndUpdateStreak h (t_streak r) (updateUserActivity (t_activity r) user) = (info, touched)"
    by (cases "checkAndUpdateStreak h (t_streak r) (updateUserActivity (t_activity r) user)")
  have prompt: "snd (wa_prompt h r user) =
      (if tokens user \<le> 0 then user
       else if streakReward info > 0 \<and> \<not> delivers r StreakNote then touched
       else touched\<lparr>tokens := tokens touched - wa_charge r\<rparr>)"
    unfolding wa_prompt_def wa_charge_def Let_def st
    by (simp split: option.split)
  show ?thesis
    unfolding wa_existing_def Let_def rw st prod.case wa_is_command_def
    using prompt by simp
qed

lemma lastActivity_streak:
  "lastActivity (snd (checkAndUpdateStreak h now u)) = lastActivity u"
  by (simp add: checkAndUpdateStreak_def Let_def)

lemma middleware_record:
  assumes "\<not> from_is_bot ctx" and "wf_db s"
  shows "floDb_tg (middleware ctx s) (from_id ctx)
           = Some ((case floDb_tg s (from_id ctx) of None \<Rightarrow> addUser_tg ctx | Some u \<Rightarrow> u)
                     \<lparr>lastActive := t_active ctx\<rparr>)"
  using assms unfolding middleware_def Let_def
  by (auto dest: wf_db_lookup simp: set_user_def addUser_tg_def split: option.splits)

lemma on_command_db: "floDb_tg (snd (on_command name ctx s)) = floDb_tg s"
  by (simp add: on_command_def split: option.split)

lemma on_command_outcome:
  "fst (on_command name ctx s) \<noteq> Answered \<and> fst (on_command name ctx s) \<noteq> PaymentVerified"
  by (simp add: on_command_def split: option.split)

lemma handle_user:
  assumes "floDb_tg s (from_id ctx) = Some u" and "tg_id u = from_id ctx"
  shows "\<exists>u'. floDb_tg (snd (tg_handle h ctx s)) (from_id ctx) = Some u'
        \<and> lastActive u' = lastActive u \<and> streak u' = streak u
        \<and> tokens u' =
            (if fst (tg_handle h ctx s) = PaymentVerified then tokens u + 10
             else if fst (tg_handle h ctx s) = Answered
               then tokens u - (if photos (message ctx) > 0 then 2 * int (photos (message ctx))
                                else 1)
             else tokens u)"
proof (cases "message ctx")
  case (Document mime dl)
  then show ?thesis
    using assms(1)
    by (simp add: tg_handle_def on_document_user [OF assms]
        split: option.split pdf_download.split verification.split)
next
  case (Message cmd n r c)
  show ?thesis
  proof (cases "\<exists>name. cmd = Some name \<and> name \<in> set tg_commands")
    case True
    then obtain name where "cmd = Some name" "name \<in> set tg_commands" by blast
    with Message assms(1) show ?thesis
      using on_command_db [of name ctx s] on_command_outcome [of name ctx s]
      by (simp add: tg_handle_def)
  next
    case False
    with Message have "tg_handle h ctx s = on_message ctx n r c s"
      by (cases cmd) (auto simp: tg_handle_def)
    with Message assms(1) show ?thesis
      by (simp add: on_message_user [OF assms] Let_def)
  qed
qed

lemma reward_tokens_mono:
  fixes u :: wa_user
  shows "tokens u \<le> tokens (snd (checkAndUpdateTokenRewards now u))"
  using reward_positive [of now u]
  by (simp add: checkAndUpdateTokenRewards_def Let_def)

lemma streak_tokens_mono:
  fixes u :: wa_user
  shows "tokens u \<le> tokens (snd (checkAndUpdateStreak h now u))"
  by (simp add: checkAndUpdateStreak_def Let_def)

lemma wa_charge_bounds: "0 \<le> wa_charge r \<and> wa_charge r \<le> 2"
  by (simp add: wa_charge_def split: option.split)

lemma wa_charge_text:
  "req_MessageType r \<noteq> ''image'' \<Longrightarrow> req_MessageType r \<noteq> ''document'' \<Longrightarrow> wa_charge r \<le> 1"
  by (simp add: wa_charge_def)

lemma wa_balance_after:
  fixes user0 :: wa_user
  assumes "0 \<le> tokens user0"
  shows "- 1 \<le> tokens (snd (wa_existing h r user0))"
    and "req_MessageType r \<noteq> ''image'' \<Longrightarrow> req_MessageType r \<noteq> ''document'' \<Longrightarrow>
           0 \<le> tokens (snd (wa_existing h r user0))"
proof -
  obtain tokenReward user where
    rw: "checkAndUpdateTokenRewards (t_reward r) user0 = (tokenReward, user)"
    by (cases "checkAndUpdateTokenRewards (t_reward r) user0")
  obtain info touched where
    st: "checkAndUpdateStreak h (t_streak r) (updateUserActivity (t_activity r) user)
           = (info, touched)"
    by (cases "checkAndUpdateStreak h (t_streak r) (updateUserActivity (t_activity r) user)")
  from reward_tokens_mono [of user0 "t_reward r"] assms have u: "0 \<le> tokens user"
    by (simp add: rw)
  have "tokens (updateUserActivity (t_activity r) user) \<le> tokens touched"
    using streak_tokens_mono [of "updateUserActivity (t_activity r) user" h "t_streak r"]
    unfolding st by simp
  then have t: "tokens user \<le> tokens touched"
    by (simp add: updateUserActivity_def)
  have res: "snd (wa_existing h r user0) =
      (if (tokenReward > 0 \<and> \<not> delivers r RewardNote) \<or> wa_is_command (req_Body r)
            \<or> tokens user \<le> 0
       then user
       else if streakReward info > 0 \<and> \<not> delivers r StreakNote then touched
       else touched\<lparr>tokens := tokens touched - wa_charge r\<rparr>)"
    unfolding wa_existing_order [of h r user0] rw st Let_def prod.case by simp
  show "- 1 \<le> tokens (snd (wa_existing h r user0))"
    unfolding res using u t wa_charge_bounds [of r] by auto
  show "0 \<le> tokens (snd (wa_existing h r user0))"
    if "req_MessageType r \<noteq> ''image''" "req_MessageType r \<noteq> ''document''"
    unfolding res using u t wa_charge_text [OF that] by auto
qed


text \<open>
  On Telegram the spend is checked against the full cost and a failed request gives the
  tokens back: the balance of a known user stays at or above 0, and after a failure the
  state is the one before the request.
\<close>

lemma tg_spend_checked:
  assumes "floDb_tg s (from_id ctx) = Some user" and "tg_id user = from_id ctx"
    and "0 \<le> tokens user"
  shows "\<exists>u'. floDb_tg (snd (on_message ctx n r c s)) (from_id ctx) = Some u' \<and> 0 \<le> tokens u'"
  using assms(1,3) unfolding on_message_user [OF assms(1,2)] Let_def
  by auto

lemma tg_refund_exact:
  assumes "floDb_tg s (from_id ctx) = Some user" and "tg_id user = from_id ctx"
    and "\<not> (r \<and> c)"
  shows "snd (on_message ctx n r c s) = s"
  using assms(3) unfolding on_message_user [OF assms(1,2)] Let_def
  by auto

text \<open>
  C1 at a failing input. On WhatsApp a prompt is refused only at a balance of 0 or less:
  Ada has 1 token and sends an image, the request succeeds, 2 tokens are deducted and her
  balance is -1.
\<close>

theorem whatsapp_overdraft:
  "whatsapp lagos (wa_msg ''image'' ''What is this?'' 3600000 True) [ada 1 0]
     = (Status200, [(ada 1 0)\<lparr>tokens := - 1, lastActivity := 3600000\<rparr>])"
  by (simp add: wa_eval)

text \<open>
  C4 at a failing input. On WhatsApp nothing is given back: Ada has 5 tokens and sends a
  text, the model call fails, the request ends with status 500 and her balance stays at 4.
\<close>

theorem whatsapp_no_refund:
  "whatsapp lagos (wa_msg ''text'' ''What is a prime number?'' 3600000 False) [ada 5 0]
     = (Status500, [(ada 5 0)\<lparr>tokens := 4, lastActivity := 3600000\<rparr>])"
  by (simp add: wa_eval)

section \<open>Activity and reward evaluation per message\<close>

text \<open>
  What a Telegram update does to the sender's record: the middleware sets \<open>lastActive\<close>,
  and the handlers change the balance by a verified payment or by the cost of an answered
  request. No Telegram handler calls the idle-reward or the streak evaluation, although
  the bot shows a streak and announces tokens every now and then.
\<close>

lemma tg_update_user:
  assumes "\<not> from_is_bot ctx" and "wf_db s"
  shows "\<exists>u'. floDb_tg (snd (tg_update h ctx s)) (from_id ctx) = Some u'
           \<and> lastActive u' = t_active ctx
           \<and> streak u' = (case floDb_tg s (from_id ctx) of None \<Rightarrow> 0 | Some u \<Rightarrow> streak u)
           \<and> tokens u' =
               (case floDb_tg s (from_id ctx) of None \<Rightarrow> 10 | Some u \<Rightarrow> tokens u)
               + (if fst (tg_update h ctx s) = PaymentVerified then 10
                  else if fst (tg_update h ctx s) = Answered
                    then - (if photos (message ctx) > 0 then 2 * int (photos (message ctx))
                            else 1)
                  else 0)"
proof -
  let ?u = "(case floDb_tg s (from_id ctx) of None \<Rightarrow> addUser_tg ctx | Some u \<Rightarrow> u)
              \<lparr>lastActive := t_active ctx\<rparr>"
  from assms have rec: "floDb_tg (middleware ctx s) (from_id ctx) = Some ?u"
    by (simp add: middleware_record)
  from assms have wf1: "wf_db (middleware ctx s)" by (simp add: wf_db_middleware)
  from wf1 rec have id: "tg_id ?u = from_id ctx" by (rule wf_db_lookup)
  from handle_user [OF rec id, of h] show ?thesis
    unfolding tg_update_def
    by (auto simp: addUser_tg_def split: option.splits)
qed

text \<open>
  C9, as the code has it on the WhatsApp channel. A message of an existing user first
  gets the idle-reward evaluation. Only a message that is no command, from a user whose
  balance is then positive and whose reward notice (if any) was delivered, sets
  \<open>lastActivity\<close> to the clock, once, and is followed by the streak evaluation and the
  charge; any other message leaves the record as the idle-reward evaluation returned it.
\<close>

theorem activity_and_rewards:
  fixes user0 :: wa_user
  shows
  "let (tokenReward, user) = checkAndUpdateTokenRewards (t_reward r) user0;
       (info, touched) =
          checkAndUpdateStreak h (t_streak r) (updateUserActivity (t_activity r) user);
       result = snd (wa_existing h r user0)
   in ((tokenReward > 0 \<longrightarrow> delivers r RewardNote) \<and> \<not> wa_is_command (req_Body r)
         \<and> tokens user > 0 \<longrightarrow>
         lastActivity result = t_activity r
         \<and> result = (if streakReward info > 0 \<and> \<not> delivers r StreakNote then touched
                     else touched\<lparr>tokens := tokens touched - wa_charge r\<rparr>))
    \<and> (\<not> ((tokenReward > 0 \<longrightarrow> delivers r RewardNote) \<and> \<not> wa_is_command (req_Body r)
            \<and> tokens user > 0) \<longrightarrow>
         result = user)"
proof -
  obtain tokenReward user where
    rw: "checkAndUpdateTokenRewards (t_reward r) user0 = (tokenReward, user)"
    by (cases "checkAndUpdateTokenRewards (t_reward r) user0")
  obtain info touched where
    st: "checkAndUpdateStreak h (t_streak r) (updateUserActivity (t_activity r) user)
           = (info, touched)"
    by (cases "checkAndUpdateStreak h (t_streak r) (updateUserActivity (t_activity r) user)")
  have "lastActivity touched = lastActivity (updateUserActivity (t_activity r) user)"
    using lastActivity_streak [of h "t_streak r" "updateUserActivity (t_activity r) user"]
    unfolding st by simp
  then have la: "lastActivity touched = t_activity r"
    by (simp add: updateUserActivity_def)
  show ?thesis
    unfolding wa_existing_order [of h r user0] rw st Let_def prod.case
    using la by auto
qed

theorem activity_and_rewards_witness:
  "snd (wa_existing lagos (wa_msg ''text'' ''What is a prime number?'' (25 * 3600000) True)
          (ada 5 3))
     = (ada 5 3)\<lparr>lastActivity := 25 * 3600000, streak := 4, streakDate := 25 * 3600000,
                  tokens := 4\<rparr>
   \<and> snd (wa_existing lagos (wa_msg ''text'' ''/streak'' (50 * 3600000) True) (ada 5 3))
     = ada 5 3"
proof -
  have 1: "snd (wa_existing lagos
                 (wa_msg ''text'' ''What is a prime number?'' (25 * 3600000) True) (ada 5 3))
     = (ada 5 3)\<lparr>lastActivity := 25 * 3600000, streak := 4, streakDate := 25 * 3600000,
                  tokens := 4\<rparr>"
    using activity_and_rewards [where r = "wa_msg ''text'' ''What is a prime number?''
        (25 * 3600000) True" and ?user0.0 = "ada 5 3" and h = lagos]
    by (simp add: wa_eval wa_is_command_def wa_charge_def)
  have 2: "snd (wa_existing lagos (wa_msg ''text'' ''/streak'' (50 * 3600000) True) (ada 5 3))
     = ada 5 3"
    using activity_and_rewards [where r = "wa_msg ''text'' ''/streak'' (50 * 3600000) True"
        and ?user0.0 = "ada 5 3" and h = lagos]
    by (simp add: wa_eval wa_is_command_def wa_charge_def)
  from 1 2 show ?thesis by simp
qed

text \<open>
  C9 as stated fails: Ada sends the command \<open>/streak\<close> 50 hours after her last activity.
  Her record is returned unchanged: \<open>lastActivity\<close> is not set to the clock and the
  streak is not evaluated.
\<close>

theorem activity_counterexample:
  "whatsapp lagos (wa_msg ''text'' ''/streak'' (50 * 3600000) True) [ada 5 3]
     = (Status200, [ada 5 3])
   \<and> lastActivity (ada 5 3) \<noteq> t_activity (wa_msg ''text'' ''/streak'' (50 * 3600000) True)"
  by (simp add: wa_eval)

end
